theory Spec2Isabelle
  imports Main "HOL-Library.Sublist" "HOL-Library.Word"
begin

section \<open>JavaScript strings and thrown values\<close>

text \<open>
  The sources hold the chat component twice. One version uses the worker bootstrap
  (\<^verbatim>\<open>ensurePdfjsWorker\<close>); its \<^verbatim>\<open>extractTextFromFile\<close> is modelled under that name,
  with the two handlers and the bootstrap module. The other version, the file
  \<^verbatim>\<open>components/doc-chat.tsx\<close>, reads every file through a \<^verbatim>\<open>FileReader\<close>; its
  \<^verbatim>\<open>extractTextFromFile\<close> is modelled as \<open>extractTextFromFile_reader\<close>. The two handlers
  are the same in both versions.

  Strings are lists of characters. A \<^typ>\<open>char\<close> stands for a code unit below 256
  (the Latin-1 range); the builtin string methods are modelled on that range.
\<close>

definition LF :: char where
  "LF = CHR 0x0A"

text \<open>\<^verbatim>\<open>String.prototype.toLowerCase\<close>: A-Z and the Latin-1 capitals move up by 32.\<close>

definition toLowerChar :: "char \<Rightarrow> char" where
  "toLowerChar c =
     (let n = (of_char c :: nat)
      in if (65 \<le> n \<and> n \<le> 90) \<or> (192 \<le> n \<and> n \<le> 222 \<and> n \<noteq> 215)
         then char_of (n + 32) else c)"

definition toLowerCase :: "string \<Rightarrow> string" where
  "toLowerCase s = map toLowerChar s"

text \<open>\<^verbatim>\<open>String.prototype.endsWith\<close>.\<close>

definition endsWith :: "string \<Rightarrow> string \<Rightarrow> bool" where
  "endsWith s suf = (length suf \<le> length s \<and> drop (length s - length suf) s = suf)"

text \<open>\<^verbatim>\<open>String.prototype.includes\<close>: the search string occurs at some position.\<close>

fun js_includes :: "string \<Rightarrow> string \<Rightarrow> bool" where
  "js_includes [] sub = (sub = [])"
| "js_includes (c # cs) sub = (prefix sub (c # cs) \<or> js_includes cs sub)"

text \<open>
  \<^verbatim>\<open>String.prototype.trim\<close>: white space and line terminators of the modelled range
  (TAB, LF, VT, FF, CR, SPACE, NBSP) are removed at both ends.
\<close>

definition is_ws :: "char \<Rightarrow> bool" where
  "is_ws c = ((of_char c :: nat) \<in> {9, 10, 11, 12, 13, 32, 160})"

definition trim :: "string \<Rightarrow> string" where
  "trim s = rev (dropWhile is_ws (rev (dropWhile is_ws s)))"

text \<open>\<^verbatim>\<open>Array.prototype.join\<close> on an array of strings.\<close>

fun js_join :: "string \<Rightarrow> string list \<Rightarrow> string" where
  "js_join sep [] = []"
| "js_join sep [x] = x"
| "js_join sep (x # y # ys) = x @ sep @ js_join sep (y # ys)"

text \<open>
  What a \<^verbatim>\<open>throw\<close> or a rejected promise carries: an \<^verbatim>\<open>Error\<close> object with its
  \<^verbatim>\<open>name\<close> and \<^verbatim>\<open>message\<close>, a string, or \<^verbatim>\<open>undefined\<close>.
\<close>

datatype js_thrown = JsError string string | JsString string | JsUndefined

text \<open>
  \<^verbatim>\<open>String(err?.message || err || "")\<close>. An empty message is falsy, so the error
  object itself is converted, and \<^verbatim>\<open>Error.prototype.toString\<close> returns the name then.
\<close>

fun err_msg :: "js_thrown \<Rightarrow> string" where
  "err_msg (JsError nm msg) = (if msg \<noteq> [] then msg else nm)"
| "err_msg (JsString s) = s"
| "err_msg JsUndefined = []"

section \<open>Files and the external libraries\<close>

type_synonym bytes = "8 word list"

text \<open>
  A \<^verbatim>\<open>File\<close>: its two hints and what its read methods answer. \<open>arrayBuffer\<close> is
  \<open>None\<close> where the method does not exist (the \<^verbatim>\<open>FileReader\<close> path is taken then);
  \<open>text_result\<close> is what \<^verbatim>\<open>await file.text()\<close> gives.
\<close>

record js_file =
  name :: string
  type :: string
  arrayBuffer :: "(js_thrown + bytes) option"
  fileReader :: "js_thrown + bytes"
  text_result :: "js_thrown + string"

definition getArrayBuffer :: "js_file \<Rightarrow> js_thrown + bytes" where
  "getArrayBuffer f =
     (case arrayBuffer f of
        Some r \<Rightarrow> r
      | None \<Rightarrow> fileReader f)"

datatype format = PDF | DOCX | TXT | Unknown

definition MIME_PDF :: string where
  "MIME_PDF = ''application/pdf''"

definition MIME_DOCX :: string where
  "MIME_DOCX = ''application/vnd.openxmlformats-officedocument.wordprocessingml.document''"

definition MIME_TXT :: string where
  "MIME_TXT = ''text/plain''"

text \<open>
  The three flags computed at the head of \<^verbatim>\<open>extractTextFromFile\<close>. The name and the
  type of a \<^verbatim>\<open>File\<close> are strings, on which \<^verbatim>\<open>x || ""\<close> is \<open>x\<close>.
\<close>

definition isPDF :: "js_file \<Rightarrow> bool" where
  "isPDF f = (type f = MIME_PDF \<or> endsWith (toLowerCase (name f)) ''.pdf'')"

definition isDOCX :: "js_file \<Rightarrow> bool" where
  "isDOCX f = (type f = MIME_DOCX \<or> endsWith (toLowerCase (name f)) ''.docx'')"

definition isTXT :: "js_file \<Rightarrow> bool" where
  "isTXT f = (type f = MIME_TXT \<or> endsWith (toLowerCase (name f)) ''.txt'')"

text \<open>The branch \<^verbatim>\<open>extractTextFromFile\<close> takes: the flags are tested in this order.\<close>

definition classify :: "js_file \<Rightarrow> format" where
  "classify f =
     (if isPDF f then PDF
      else if isDOCX f then DOCX
      else if isTXT f then TXT
      else Unknown)"

text \<open>The format a MIME type alone, and an extension alone, stands for.\<close>

definition mime_format :: "string \<Rightarrow> format option" where
  "mime_format t =
     (if t = MIME_PDF then Some PDF
      else if t = MIME_DOCX then Some DOCX
      else if t = MIME_TXT then Some TXT
      else None)"

definition ext_format :: "string \<Rightarrow> format option" where
  "ext_format n =
     (if endsWith (toLowerCase n) ''.pdf'' then Some PDF
      else if endsWith (toLowerCase n) ''.docx'' then Some DOCX
      else if endsWith (toLowerCase n) ''.txt'' then Some TXT
      else None)"

text \<open>The order of the branches: PDF before DOCX before TXT.\<close>

fun rank :: "format \<Rightarrow> nat" where
  "rank PDF = 0"
| "rank DOCX = 1"
| "rank TXT = 2"
| "rank Unknown = 3"

text \<open>
  The PDF library: a loaded document has a page count and answers \<^verbatim>\<open>getPage(i)\<close>; a
  page answers \<^verbatim>\<open>getTextContent()\<close> with the \<^verbatim>\<open>str\<close> of its items.
\<close>

record pdf_page =
  getTextContent :: "js_thrown + string list"

record pdf_doc =
  numPages :: nat
  getPage :: "nat \<Rightarrow> js_thrown + pdf_page"

text \<open>
  The collaborators \<^verbatim>\<open>extractTextFromFile\<close> calls. An import is \<open>None\<close> when it
  resolves and \<open>Some e\<close> when it rejects with \<open>e\<close>. \<open>getDocument data dw\<close> is what
  \<^verbatim>\<open>pdfjsLib.getDocument({ data, disableWorker: dw }).promise\<close> settles to.
  \<open>extractRawText\<close> gives the \<^verbatim>\<open>value\<close> field of mammoth's result (\<open>None\<close> when
  it is missing). \<open>decode\<close> is the non-fatal UTF-8 \<^verbatim>\<open>TextDecoder\<close>, which never throws.
\<close>

record libs =
  import_pdfjs :: "js_thrown option"
  getDocument :: "bytes \<Rightarrow> bool \<Rightarrow> js_thrown + pdf_doc"
  import_mammoth :: "js_thrown option"
  extractRawText :: "bytes \<Rightarrow> js_thrown + string option"
  decode :: "bytes \<Rightarrow> string"

datatype role = User | Assistant

text \<open>What the code does to the outside, in the order it does it.\<close>

datatype effect =
    GetDocument bool
  | ConsoleError string js_thrown
  | Alert string
  | PreventDefault
  | Fetch string string "(role \<times> string) list"

section \<open>Text extraction\<close>

definition WORKER_MISMATCH :: string where
  "WORKER_MISMATCH = ''does not match the Worker version''"

text \<open>
  Opening the document: first with the worker; on a rejection whose message includes the
  mismatch text, once more with \<^verbatim>\<open>disableWorker: true\<close>; any other rejection is rethrown.
\<close>

definition open_pdf :: "libs \<Rightarrow> bytes \<Rightarrow> (js_thrown + pdf_doc) \<times> effect list" where
  "open_pdf env data =
     (case getDocument env data False of
        Inr pdf \<Rightarrow> (Inr pdf, [GetDocument False])
      | Inl err \<Rightarrow>
          (let msg = err_msg err
           in if js_includes msg WORKER_MISMATCH
              then (getDocument env data True, [GetDocument False, GetDocument True])
              else (Inl err, [GetDocument False])))"

text \<open>The loop \<^verbatim>\<open>for (let i = 1; i <= pdf.numPages; i++)\<close>, with \<open>text\<close> its accumulator.\<close>

function read_pages :: "pdf_doc \<Rightarrow> nat \<Rightarrow> string \<Rightarrow> js_thrown + string" where
  "read_pages pdf i text =
     (if i \<le> numPages pdf then
        (case getPage pdf i of
           Inl e \<Rightarrow> Inl e
         | Inr page \<Rightarrow>
             (case getTextContent page of
                Inl e \<Rightarrow> Inl e
              | Inr items \<Rightarrow> read_pages pdf (i + 1) ((text @ js_join '' '' items) @ [LF])))
      else Inr text)"
  by pat_completeness auto
termination
  by (relation "measure (\<lambda>(pdf, i, text). numPages pdf + 1 - i)") auto

declare read_pages.simps [simp del]

text \<open>The text fallback shared by the TXT branch and the branch for unknown types.\<close>

definition read_text :: "libs \<Rightarrow> js_file \<Rightarrow> js_thrown + string" where
  "read_text env f =
     (case text_result f of
        Inr s \<Rightarrow> Inr s
      | Inl _ \<Rightarrow>
          (case getArrayBuffer f of
             Inl e \<Rightarrow> Inl e
           | Inr buffer \<Rightarrow> Inr (decode env buffer)))"

text \<open>The body of the outer \<^verbatim>\<open>try\<close> of \<^verbatim>\<open>extractTextFromFile\<close>.\<close>

definition extract_body :: "libs \<Rightarrow> js_file \<Rightarrow> (js_thrown + string) \<times> effect list" where
  "extract_body env f =
     (if isPDF f then
        (case getArrayBuffer f of
           Inl e \<Rightarrow> (Inl e, [])
         | Inr buffer \<Rightarrow>
             (case import_pdfjs env of
                Some e \<Rightarrow> (Inl e, [])
              | None \<Rightarrow>
                  (case open_pdf env buffer of
                     (Inl e, log) \<Rightarrow> (Inl e, log)
                   | (Inr pdf, log) \<Rightarrow>
                       (case read_pages pdf 1 [] of
                          Inl e \<Rightarrow> (Inl e, log)
                        | Inr text \<Rightarrow> (Inr (trim text), log)))))
      else if isDOCX f then
        (case getArrayBuffer f of
           Inl e \<Rightarrow> (Inl e, [])
         | Inr buffer \<Rightarrow>
             (case import_mammoth env of
                Some e \<Rightarrow> (Inl e, [])
              | None \<Rightarrow>
                  (case extractRawText env buffer of
                     Inl e \<Rightarrow> (Inl e, [])
                   | Inr v \<Rightarrow> (Inr (case v of Some s \<Rightarrow> s | None \<Rightarrow> []), []))))
      else if isTXT f then (read_text env f, [])
      else (read_text env f, []))"

text \<open>The outer \<^verbatim>\<open>catch\<close> logs the error and throws it again.\<close>

definition extractTextFromFile :: "libs \<Rightarrow> js_file \<Rightarrow> (js_thrown + string) \<times> effect list" where
  "extractTextFromFile env f =
     (case extract_body env f of
        (Inl e, log) \<Rightarrow> (Inl e, log @ [ConsoleError ''[v0] extractTextFromFile error:'' e])
      | (Inr s, log) \<Rightarrow> (Inr s, log))"

text \<open>
  The PDF branch and the DOCX branch of \<open>extract_body\<close> on their own, and the branch that
  belongs to a format.
\<close>

definition pdf_branch :: "libs \<Rightarrow> js_file \<Rightarrow> (js_thrown + string) \<times> effect list" where
  "pdf_branch env f =
     (case getArrayBuffer f of
        Inl e \<Rightarrow> (Inl e, [])
      | Inr buffer \<Rightarrow>
          (case import_pdfjs env of
             Some e \<Rightarrow> (Inl e, [])
           | None \<Rightarrow>
               (case open_pdf env buffer of
                  (Inl e, log) \<Rightarrow> (Inl e, log)
                | (Inr pdf, log) \<Rightarrow>
                    (case read_pages pdf 1 [] of
                       Inl e \<Rightarrow> (Inl e, log)
                     | Inr text \<Rightarrow> (Inr (trim text), log)))))"

definition docx_branch :: "libs \<Rightarrow> js_file \<Rightarrow> (js_thrown + string) \<times> effect list" where
  "docx_branch env f =
     (case getArrayBuffer f of
        Inl e \<Rightarrow> (Inl e, [])
      | Inr buffer \<Rightarrow>
          (case import_mammoth env of
             Some e \<Rightarrow> (Inl e, [])
           | None \<Rightarrow>
               (case extractRawText env buffer of
                  Inl e \<Rightarrow> (Inl e, [])
                | Inr v \<Rightarrow> (Inr (case v of Some s \<Rightarrow> s | None \<Rightarrow> []), []))))"

fun branch :: "libs \<Rightarrow> js_file \<Rightarrow> format \<Rightarrow> (js_thrown + string) \<times> effect list" where
  "branch env f PDF = pdf_branch env f"
| "branch env f DOCX = docx_branch env f"
| "branch env f TXT = (read_text env f, [])"
| "branch env f Unknown = (read_text env f, [])"

section \<open>Text extraction through a FileReader\<close>

text \<open>
  The \<^verbatim>\<open>extractTextFromFile\<close> of \<^verbatim>\<open>components/doc-chat.tsx\<close>. Its page loop appends the
  joined fragments of a page and nothing else.
\<close>

function read_pages_reader :: "pdf_doc \<Rightarrow> nat \<Rightarrow> string \<Rightarrow> js_thrown + string" where
  "read_pages_reader pdf i text =
     (if i \<le> numPages pdf then
        (case getPage pdf i of
           Inl e \<Rightarrow> Inl e
         | Inr page \<Rightarrow>
             (case getTextContent page of
                Inl e \<Rightarrow> Inl e
              | Inr items \<Rightarrow> read_pages_reader pdf (i + 1) (text @ js_join '' '' items)))
      else Inr text)"
  by pat_completeness auto
termination
  by (relation "measure (\<lambda>(pdf, i, text). numPages pdf + 1 - i)") auto

declare read_pages_reader.simps [simp del]

text \<open>
  The promise rejects when the reader fails or the \<^verbatim>\<open>try\<close> block throws. It resolves with
  the text of the pages as it is, with \<^verbatim>\<open>result.value\<close> of mammoth (\<open>None\<close> when that is
  \<^verbatim>\<open>undefined\<close>), or with the decoded bytes. The document is opened with the worker, once.
\<close>

definition extractTextFromFile_reader :: "libs \<Rightarrow> js_file \<Rightarrow> js_thrown + string option" where
  "extractTextFromFile_reader env f =
     (case fileReader f of
        Inl err \<Rightarrow> Inl err
      | Inr buffer \<Rightarrow>
          (if type f = MIME_PDF then
             (case getDocument env buffer False of
                Inl e \<Rightarrow> Inl e
              | Inr pdf \<Rightarrow>
                  (case read_pages_reader pdf 1 [] of
                     Inl e \<Rightarrow> Inl e
                   | Inr text \<Rightarrow> Inr (Some text)))
           else if endsWith (toLowerCase (name f)) ''.docx'' then
             (case extractRawText env buffer of
                Inl e \<Rightarrow> Inl e
              | Inr v \<Rightarrow> Inr v)
           else Inr (Some (decode env buffer))))"

text \<open>The branch this version takes (its last branch is for \<^verbatim>\<open>TXT or others\<close>).\<close>

definition classify_reader :: "js_file \<Rightarrow> format" where
  "classify_reader f =
     (if type f = MIME_PDF then PDF
      else if endsWith (toLowerCase (name f)) ''.docx'' then DOCX
      else TXT)"

fun branch_reader :: "libs \<Rightarrow> bytes \<Rightarrow> format \<Rightarrow> js_thrown + string option" where
  "branch_reader env buffer PDF =
     (case getDocument env buffer False of
        Inl e \<Rightarrow> Inl e
      | Inr pdf \<Rightarrow>
          (case read_pages_reader pdf 1 [] of
             Inl e \<Rightarrow> Inl e
           | Inr text \<Rightarrow> Inr (Some text)))"
| "branch_reader env buffer DOCX =
     (case extractRawText env buffer of
        Inl e \<Rightarrow> Inl e
      | Inr v \<Rightarrow> Inr v)"
| "branch_reader env buffer TXT = Inr (Some (decode env buffer))"
| "branch_reader env buffer Unknown = Inr (Some (decode env buffer))"

section \<open>The chat component\<close>

record chat_message =
  id' :: string
  role :: role
  content :: string

record state =
  files :: "js_file list"
  knowledgeBase :: string
  isReady :: bool
  messages :: "chat_message list"
  input :: string
  isSending :: bool

definition hasFiles :: "state \<Rightarrow> bool" where
  "hasFiles s = (length (files s) > 0)"

definition SEP :: string where
  "SEP = [LF, LF, CHR ''-'', CHR ''-'', CHR ''-'', LF, LF]"

text \<open>The knowledge base: \<^verbatim>\<open>texts.join("\n\n---\n\n")\<close>.\<close>

definition assemble :: "string list \<Rightarrow> string" where
  "assemble texts = js_join SEP texts"

definition WELCOME :: string where
  "WELCOME = ''Hi! Your documents are processed. Ask a question and I will answer based on them.''"

definition APOLOGY :: string where
  "APOLOGY = ''Sorry, something went wrong reaching Gemini. Please try again.''"

text \<open>
  \<^verbatim>\<open>Promise.all\<close>: the list of values when every promise fulfils, a rejection otherwise
  (the model takes the first rejection in list order).
\<close>

fun promise_all :: "(js_thrown + 'a) list \<Rightarrow> js_thrown + 'a list" where
  "promise_all [] = Inr []"
| "promise_all (Inl e # rs) = Inl e"
| "promise_all (Inr v # rs) =
     (case promise_all rs of
        Inl e \<Rightarrow> Inl e
      | Inr vs \<Rightarrow> Inr (v # vs))"

text \<open>
  \<^verbatim>\<open>handleProcessDocuments\<close>. \<open>uuid\<close> is what \<^verbatim>\<open>crypto.randomUUID()\<close> returns.
  Every extraction is started before the join, so the log holds the effects of them all.
\<close>

definition handleProcessDocuments :: "libs \<Rightarrow> string \<Rightarrow> state \<Rightarrow> state \<times> effect list" where
  "handleProcessDocuments env uuid s =
     (if \<not> hasFiles s then (s, [])
      else
        (let s1 = s\<lparr>isSending := True\<rparr>;
             rs = map (extractTextFromFile env) (files s1);
             log = concat (map snd rs)
         in case promise_all (map fst rs) of
              Inr texts \<Rightarrow>
                (let kb = assemble texts;
                     s2 = s1\<lparr>knowledgeBase := kb\<rparr>;
                     s3 = s2\<lparr>isReady := True\<rparr>;
                     s4 = s3\<lparr>messages := [\<lparr>id' = uuid, role = Assistant, content = WELCOME\<rparr>]\<rparr>
                 in (s4\<lparr>isSending := False\<rparr>, log))
            | Inl err \<Rightarrow>
                (s1\<lparr>isSending := False\<rparr>,
                 log @ [ConsoleError ''[v0] Error processing files:'' err,
                        Alert ''Error processing files. Check the console for details.''])))"

text \<open>
  The answer of \<^verbatim>\<open>fetch("/api/gemini", ...)\<close>: \<open>body_text\<close> is what
  \<^verbatim>\<open>await res.text()\<close> gives and \<open>body_json\<close> the \<^verbatim>\<open>reply\<close> read from
  \<^verbatim>\<open>await res.json()\<close>.
\<close>

record response =
  ok :: bool
  status :: nat
  body_text :: "js_thrown + string"
  body_json :: "js_thrown + string"

text \<open>
  What one submission meets: the two identifiers \<^verbatim>\<open>crypto.randomUUID()\<close> hands out
  and what the request settles to (\<open>Inl\<close>: the network call rejected).
\<close>

record send_env =
  uuid_user :: string
  uuid_reply :: string
  fetch_result :: "js_thrown + response"

text \<open>A number in a template literal: its decimal digits.\<close>

fun show_nat :: "nat \<Rightarrow> string" where
  "show_nat n =
     (if n < 10 then [char_of (48 + n)]
      else show_nat (n div 10) @ [char_of (48 + n mod 10)])"

text \<open>The value \<^verbatim>\<open>err?.message || err\<close> that the chat handler logs.\<close>

fun message_or_err :: "js_thrown \<Rightarrow> js_thrown" where
  "message_or_err (JsError nm msg) = (if msg \<noteq> [] then JsString msg else JsError nm msg)"
| "message_or_err e = e"

text \<open>The \<^verbatim>\<open>try\<close> block of \<^verbatim>\<open>handleSend\<close>, up to the reply it reads.\<close>

definition send_try :: "send_env \<Rightarrow> js_thrown + string" where
  "send_try env =
     (case fetch_result env of
        Inl e \<Rightarrow> Inl e
      | Inr res \<Rightarrow>
          (if \<not> ok res then
             (case body_text res of
                Inl e \<Rightarrow> Inl e
              | Inr t \<Rightarrow> Inl (JsError ''Error'' (''API error ('' @ show_nat (status res) @ ''): '' @ t)))
           else
             (case body_json res of
                Inl e \<Rightarrow> Inl e
              | Inr reply \<Rightarrow> Inr reply)))"

text \<open>
  \<^verbatim>\<open>handleSend\<close>. The result is \<open>Inl\<close> when an exception leaves the handler and
  \<open>Inr\<close> with the new state and the effects when it returns.
\<close>

definition handleSend :: "send_env \<Rightarrow> state \<Rightarrow> js_thrown + state \<times> effect list" where
  "handleSend env s =
     (if trim (input s) = [] \<or> isSending s \<or> \<not> isReady s then Inr (s, [PreventDefault])
      else
        (let userMsg = \<lparr>id' = uuid_user env, role = User, content = trim (input s)\<rparr>;
             s1 = s\<lparr>messages := messages s @ [userMsg]\<rparr>;
             s2 = s1\<lparr>input := []\<rparr>;
             s3 = s2\<lparr>isSending := True\<rparr>;
             request = Fetch ''/api/gemini'' (knowledgeBase s)
                         (map (\<lambda>m. (role m, content m)) (messages s @ [userMsg]))
         in case send_try env of
              Inr reply \<Rightarrow>
                (let aiMsg = \<lparr>id' = uuid_reply env, role = Assistant, content = reply\<rparr>;
                     s4 = s3\<lparr>messages := messages s3 @ [aiMsg]\<rparr>
                 in Inr (s4\<lparr>isSending := False\<rparr>, [PreventDefault, request]))
            | Inl err \<Rightarrow>
                (let s4 = s3\<lparr>messages := messages s3 @
                             [\<lparr>id' = uuid_reply env, role = Assistant, content = APOLOGY\<rparr>]\<rparr>
                 in Inr (s4\<lparr>isSending := False\<rparr>,
                         [PreventDefault, request,
                          ConsoleError ''[v0] Chat error:'' (message_or_err err)]))))"

section \<open>The worker bootstrap\<close>

definition PDFJS_VERSION :: string where
  "PDFJS_VERSION = ''5.4.296''"

definition WORKER_URL :: string where
  "WORKER_URL =
     ''https://cdn.jsdelivr.net/npm/pdfjs-dist@'' @ PDFJS_VERSION @ ''/build/pdf.worker.min.mjs''"

text \<open>
  The module's state: the flag and \<^verbatim>\<open>GlobalWorkerOptions.workerSrc\<close>, with two counters
  of what has been done so far (calls of \<^verbatim>\<open>import\<close>, writes of \<^verbatim>\<open>workerSrc\<close>).
\<close>

record worker =
  initialized :: bool
  workerSrc :: "string option"
  import_calls :: nat
  src_writes :: nat

text \<open>
  One call of \<^verbatim>\<open>ensurePdfjsWorker\<close> runs up to \<^verbatim>\<open>await import(...)\<close>, where it is
  suspended, and runs to its end when the import has settled.
\<close>

datatype call = Fresh | Awaiting | Returned | Rejected js_thrown

definition ensure_start :: "bool \<Rightarrow> worker \<Rightarrow> call \<times> worker" where
  "ensure_start hasWindow w =
     (if initialized w then (Returned, w)
      else if \<not> hasWindow then (Returned, w)
      else (Awaiting, w\<lparr>import_calls := import_calls w + 1\<rparr>))"

definition ensure_resume :: "js_thrown option \<Rightarrow> worker \<Rightarrow> call \<times> worker" where
  "ensure_resume imported w =
     (case imported of
        Some e \<Rightarrow> (Rejected e, w)
      | None \<Rightarrow>
          (let w1 = w\<lparr>workerSrc := Some WORKER_URL, src_writes := src_writes w + 1\<rparr>
           in (Returned, w1\<lparr>initialized := True\<rparr>)))"

text \<open>
  Several calls in flight under cooperative scheduling: a schedule names, step by step,
  the call that runs next. \<open>imp i\<close> is what the import of call \<open>i\<close> settles to.
\<close>

definition step :: "bool \<Rightarrow> (nat \<Rightarrow> js_thrown option) \<Rightarrow> nat \<Rightarrow> worker \<times> call list \<Rightarrow> worker \<times> call list" where
  "step hasWindow imp i cfg =
     (case cfg of (w, cs) \<Rightarrow>
        if i < length cs then
          (case cs ! i of
             Fresh \<Rightarrow> (case ensure_start hasWindow w of (c, w') \<Rightarrow> (w', cs[i := c]))
           | Awaiting \<Rightarrow> (case ensure_resume (imp i) w of (c, w') \<Rightarrow> (w', cs[i := c]))
           | _ \<Rightarrow> (w, cs))
        else (w, cs))"

fun run :: "bool \<Rightarrow> (nat \<Rightarrow> js_thrown option) \<Rightarrow> nat list \<Rightarrow> worker \<times> call list \<Rightarrow> worker \<times> call list" where
  "run hasWindow imp [] cfg = cfg"
| "run hasWindow imp (i # sched) cfg = run hasWindow imp sched (step hasWindow imp i cfg)"

definition worker0 :: worker where
  "worker0 = \<lparr>initialized = False, workerSrc = None, import_calls = 0, src_writes = 0\<rparr>"

section \<open>Counting a separator\<close>

text \<open>The number of positions of \<open>s\<close> at which \<open>sep\<close> starts.\<close>

fun occurrences :: "string \<Rightarrow> string \<Rightarrow> nat" where
  "occurrences sep [] = (if sep = [] then 1 else 0)"
| "occurrences sep (c # cs) = (if prefix sep (c # cs) then 1 else 0) + occurrences sep cs"

text \<open>\<open>has_sub sub s\<close>: \<open>sub\<close> is a substring of \<open>s\<close>.\<close>

definition has_sub :: "string \<Rightarrow> string \<Rightarrow> bool" where
  "has_sub sub s = js_includes s sub"

section \<open>Notions used in the statements\<close>

text \<open>Page \<open>i\<close> can be read: both \<^verbatim>\<open>getPage(i)\<close> and \<^verbatim>\<open>getTextContent()\<close> fulfil.\<close>

definition readable :: "pdf_doc \<Rightarrow> nat \<Rightarrow> bool" where
  "readable pdf i =
     (case getPage pdf i of
        Inl e \<Rightarrow> False
      | Inr page \<Rightarrow> (case getTextContent page of Inl e \<Rightarrow> False | Inr items \<Rightarrow> True))"

definition page_items :: "pdf_doc \<Rightarrow> nat \<Rightarrow> string list" where
  "page_items pdf i =
     (case getPage pdf i of
        Inl e \<Rightarrow> []
      | Inr page \<Rightarrow> (case getTextContent page of Inl e \<Rightarrow> [] | Inr items \<Rightarrow> items))"

text \<open>
  The text of a document as the specification words it: for the pages 1 to the page count,
  in order, the fragments of the page joined with one space and followed by a newline.
\<close>

definition page_line :: "pdf_doc \<Rightarrow> nat \<Rightarrow> string" where
  "page_line pdf i = js_join '' '' (page_items pdf i) @ [LF]"

definition pages_text :: "pdf_doc \<Rightarrow> string" where
  "pages_text pdf = concat (map (page_line pdf) [1..<Suc (numPages pdf)])"

text \<open>The fragments of all pages, joined page by page, with nothing between the pages.\<close>

definition pages_text_reader :: "pdf_doc \<Rightarrow> string" where
  "pages_text_reader pdf =
     concat (map (\<lambda>i. js_join '' '' (page_items pdf i)) [1..<Suc (numPages pdf)])"

text \<open>The \<^verbatim>\<open>disableWorker\<close> flags of the \<^verbatim>\<open>getDocument\<close> calls in a log, in order.\<close>

fun open_calls :: "effect list \<Rightarrow> bool list" where
  "open_calls [] = []"
| "open_calls (GetDocument dw # es) = dw # open_calls es"
| "open_calls (e # es) = open_calls es"

text \<open>The network requests in a log.\<close>

definition fetches :: "effect list \<Rightarrow> effect list" where
  "fetches log = filter (\<lambda>e. case e of Fetch u k m \<Rightarrow> True | _ \<Rightarrow> False) log"

definition welcome_msg :: "string \<Rightarrow> chat_message" where
  "welcome_msg uuid = \<lparr>id' = uuid, role = Assistant, content = WELCOME\<rparr>"

definition user_msg :: "send_env \<Rightarrow> state \<Rightarrow> chat_message" where
  "user_msg env s = \<lparr>id' = uuid_user env, role = User, content = trim (input s)\<rparr>"

definition apology_msg :: "send_env \<Rightarrow> chat_message" where
  "apology_msg env = \<lparr>id' = uuid_reply env, role = Assistant, content = APOLOGY\<rparr>"

definition assistant_count :: "chat_message list \<Rightarrow> nat" where
  "assistant_count ms = length (filter (\<lambda>m. role m = Assistant) ms)"

text \<open>The flag is never set without the worker script being configured.\<close>

definition configured :: "worker \<Rightarrow> bool" where
  "configured w = (initialized w \<longrightarrow> workerSrc w = Some WORKER_URL \<and> src_writes w \<ge> 1)"

text \<open>The occurrences of \<open>sep\<close> in \<open>a @ b\<close> that start inside \<open>a\<close>.\<close>

fun occ_front :: "string \<Rightarrow> string \<Rightarrow> string \<Rightarrow> nat" where
  "occ_front sep [] b = 0"
| "occ_front sep (c # cs) b = (if prefix sep (c # cs @ b) then 1 else 0) + occ_front sep cs b"

definition RULE :: string where
  "RULE = ''---''"

definition clean_start :: "string \<Rightarrow> bool" where
  "clean_start r = (\<not> prefix RULE r \<and> \<not> prefix (LF # RULE) r)"

section \<open>Example inputs\<close>

definition PDF_BYTES :: bytes where
  "PDF_BYTES = [37, 80, 68, 70]"

definition scan_pdf :: js_file where
  "scan_pdf = \<lparr>name = ''scan.pdf'', type = ''text/plain'',
      arrayBuffer = Some (Inr PDF_BYTES), fileReader = Inr PDF_BYTES, text_result = Inr ''%PDF''\<rparr>"

definition memo_docx :: js_file where
  "memo_docx = \<lparr>name = ''memo.docx'', type = ''text/plain'',
      arrayBuffer = Some (Inr [80, 75]), fileReader = Inr [80, 75], text_result = Inr ''PK''\<rparr>"

definition paper_pdf :: js_file where
  "paper_pdf = \<lparr>name = ''paper.pdf'', type = ''application/pdf'',
      arrayBuffer = Some (Inr PDF_BYTES), fileReader = Inr PDF_BYTES, text_result = Inr ''%PDF''\<rparr>"

definition upper_report :: js_file where
  "upper_report = \<lparr>name = ''report.PDF'', type = [],
      arrayBuffer = Some (Inr PDF_BYTES), fileReader = Inr PDF_BYTES, text_result = Inr ''%PDF''\<rparr>"

definition report_doc :: pdf_doc where
  "report_doc = \<lparr>numPages = 2, getPage = (\<lambda>i. Inr \<lparr>getTextContent =
       Inr (if i = 1 then [''Hello'', ''world''] else [''bye'', '' ''])\<rparr>)\<rparr>"

definition report_file :: js_file where
  "report_file = \<lparr>name = ''report.PDF'', type = [], arrayBuffer = None,
      fileReader = Inr [], text_result = Inr []\<rparr>"

definition notes_file :: js_file where
  "notes_file = \<lparr>name = ''notes.txt'', type = ''application/pdf'', arrayBuffer = None,
      fileReader = Inr [], text_result = Inr []\<rparr>"

definition pdf_file :: js_file where
  "pdf_file = \<lparr>name = ''paper.pdf'', type = ''application/pdf'', arrayBuffer = Some (Inr [37, 80]),
      fileReader = Inr [], text_result = Inr []\<rparr>"

definition txt_file :: js_file where
  "txt_file = \<lparr>name = ''notes.txt'', type = ''text/plain'', arrayBuffer = None,
      fileReader = Inr [], text_result = Inr ''alpha''\<rparr>"

definition bad_docx :: js_file where
  "bad_docx = \<lparr>name = ''cv.docx'', type = [], arrayBuffer = Some (Inl (JsString ''read failed'')),
      fileReader = Inr [], text_result = Inr []\<rparr>"

definition hello_doc :: pdf_doc where
  "hello_doc = \<lparr>numPages = 2, getPage = (\<lambda>i. Inr \<lparr>getTextContent =
       Inr (if i = 1 then [''Hello'', ''world''] else [''bye''])\<rparr>)\<rparr>"

definition mismatch_error :: js_thrown where
  "mismatch_error = JsError ''Error'' ''The API version does not match the Worker version.''"

definition other_error :: js_thrown where
  "other_error = JsError ''InvalidPDFException'' ''Invalid PDF structure.''"

definition reader_libs :: libs where
  "reader_libs = \<lparr>import_pdfjs = None,
      getDocument = (\<lambda>data dw. if data = PDF_BYTES then Inr report_doc else Inl other_error),
      import_mammoth = None,
      extractRawText = (\<lambda>data. Inr (Some ''from mammoth'')),
      decode = (\<lambda>data. if data = PDF_BYTES then ''%PDF'' else ''decoded'')\<rparr>"

definition plain_libs :: libs where
  "plain_libs = \<lparr>import_pdfjs = None,
      getDocument = (\<lambda>data dw. Inr hello_doc),
      import_mammoth = None, extractRawText = (\<lambda>data. Inr None), decode = (\<lambda>data. [])\<rparr>"

definition mismatch_libs :: libs where
  "mismatch_libs = \<lparr>import_pdfjs = None,
      getDocument = (\<lambda>data dw. if dw then Inr hello_doc else Inl mismatch_error),
      import_mammoth = None, extractRawText = (\<lambda>data. Inr None), decode = (\<lambda>data. [])\<rparr>"

definition broken_libs :: libs where
  "broken_libs = \<lparr>import_pdfjs = None,
      getDocument = (\<lambda>data dw. if dw then Inr hello_doc else Inl other_error),
      import_mammoth = None, extractRawText = (\<lambda>data. Inr None), decode = (\<lambda>data. [])\<rparr>"

definition quiet_libs :: libs where
  "quiet_libs = \<lparr>import_pdfjs = None,
      getDocument = (\<lambda>data dw. Inl JsUndefined),
      import_mammoth = None, extractRawText = (\<lambda>data. Inr None), decode = (\<lambda>data. [])\<rparr>"

definition old_msg :: chat_message where
  "old_msg = \<lparr>id' = ''m1'', role = User, content = ''earlier question''\<rparr>"

definition ready_state :: state where
  "ready_state = \<lparr>files = [txt_file, bad_docx], knowledgeBase = ''old'', isReady = True,
      messages = [old_msg], input = ''  what now? '', isSending = False\<rparr>"

definition good_state :: state where
  "good_state = \<lparr>files = [txt_file, txt_file], knowledgeBase = ''old'', isReady = True,
      messages = [old_msg, old_msg], input = [], isSending = False\<rparr>"

definition blank_state :: state where
  "blank_state = \<lparr>files = [], knowledgeBase = ''kb'', isReady = True,
      messages = [old_msg], input = ''   '', isSending = False\<rparr>"

definition unready_state :: state where
  "unready_state = \<lparr>files = [], knowledgeBase = [], isReady = False,
      messages = [], input = ''hello'', isSending = False\<rparr>"

definition offline :: send_env where
  "offline = \<lparr>uuid_user = ''u1'', uuid_reply = ''u2'',
      fetch_result = Inl (JsError ''TypeError'' ''Failed to fetch'')\<rparr>"

definition server_down :: send_env where
  "server_down = \<lparr>uuid_user = ''u3'', uuid_reply = ''u4'',
      fetch_result = Inr \<lparr>ok = False, status = 500, body_text = Inr ''Failed to generate content'',
        body_json = Inl JsUndefined\<rparr>\<rparr>"

definition imports_ok :: "nat \<Rightarrow> js_thrown option" where
  "imports_ok i = None"

definition first_import_fails :: "nat \<Rightarrow> js_thrown option" where
  "first_import_fails i =
     (if i = 0 then Some (JsError ''TypeError'' ''Failed to fetch dynamically imported module'')
      else None)"

section \<open>Classification\<close>

lemma mimes_distinct:
  "MIME_PDF \<noteq> MIME_DOCX" "MIME_PDF \<noteq> MIME_TXT" "MIME_DOCX \<noteq> MIME_TXT"
  by (simp_all add: MIME_PDF_def MIME_DOCX_def MIME_TXT_def)

lemma toLowerCase_append: "toLowerCase (b @ e) = toLowerCase b @ toLowerCase e"
  by (simp add: toLowerCase_def)

lemma classify_first_in_order:
  "mime_format (type f) = Some a \<Longrightarrow> ext_format (name f) = Some b \<Longrightarrow>
     classify f = (if rank a \<le> rank b then a else b)"
  using mimes_distinct
  by (auto simp: mime_format_def ext_format_def classify_def isPDF_def isDOCX_def isTXT_def
       split: if_splits)

lemma extract_body_branch: "extract_body env f = branch env f (classify f)"
  by (simp add: extract_body_def classify_def pdf_branch_def docx_branch_def)

lemma extractTextFromFile_reader_branch:
  "extractTextFromFile_reader env f =
     (case fileReader f of
        Inl err \<Rightarrow> Inl err
      | Inr buffer \<Rightarrow> branch_reader env buffer (classify_reader f))"
  by (simp add: extractTextFromFile_reader_def classify_reader_def split: sum.splits)

text \<open>
  Claim C1, as amended.
  In the version with the worker bootstrap, a file whose MIME type stands for one format and
  whose extension stands for another takes the branch of whichever of the two formats comes
  first in the order PDF, DOCX, TXT, and extraction runs the branch of that classification.
  In both versions a file with MIME type \<^verbatim>\<open>application/pdf\<close> takes the PDF branch.
  In the version that reads through a \<^verbatim>\<open>FileReader\<close>, a file whose MIME type is not
  \<^verbatim>\<open>application/pdf\<close> and whose lower-cased name ends in \<^verbatim>\<open>.docx\<close> takes the DOCX
  branch, a file with MIME type \<^verbatim>\<open>text/plain\<close> whose lower-cased name does not end in
  \<^verbatim>\<open>.docx\<close> is decoded as text, and extraction runs the branch of that version's
  classification on the bytes read.
\<close>

theorem classify_conflict:
  "(mime_format (type f) = Some a \<and> ext_format (name f) = Some b \<longrightarrow>
        classify f = (if rank a \<le> rank b then a else b))
   \<and> extract_body env f = branch env f (classify f)
   \<and> (type f = MIME_PDF \<longrightarrow> classify f = PDF \<and> classify_reader f = PDF)
   \<and> (type f \<noteq> MIME_PDF \<and> endsWith (toLowerCase (name f)) ''.docx'' \<longrightarrow>
        classify_reader f = DOCX)
   \<and> (type f = MIME_TXT \<and> \<not> endsWith (toLowerCase (name f)) ''.docx'' \<longrightarrow>
        classify_reader f = TXT)
   \<and> extractTextFromFile_reader env f =
        (case fileReader f of
           Inl err \<Rightarrow> Inl err
         | Inr buffer \<Rightarrow> branch_reader env buffer (classify_reader f))"
proof (intro conjI impI)
  assume "mime_format (type f) = Some a \<and> ext_format (name f) = Some b"
  then show "classify f = (if rank a \<le> rank b then a else b)"
    using classify_first_in_order by blast
next
  show "extract_body env f = branch env f (classify f)" by (rule extract_body_branch)
next
  assume "type f = MIME_PDF"
  then show "classify f = PDF" by (simp add: classify_def isPDF_def)
next
  assume "type f = MIME_PDF"
  then show "classify_reader f = PDF" by (simp add: classify_reader_def)
next
  assume "type f \<noteq> MIME_PDF \<and> endsWith (toLowerCase (name f)) ''.docx''"
  then show "classify_reader f = DOCX" by (simp add: classify_reader_def)
next
  assume "type f = MIME_TXT \<and> \<not> endsWith (toLowerCase (name f)) ''.docx''"
  then show "classify_reader f = TXT" using mimes_distinct by (simp add: classify_reader_def)
next
  show "extractTextFromFile_reader env f =
        (case fileReader f of
           Inl err \<Rightarrow> Inl err
         | Inr buffer \<Rightarrow> branch_reader env buffer (classify_reader f))"
    by (rule extractTextFromFile_reader_branch)
qed

theorem classify_conflict_witness:
  "mime_format (type notes_file) = Some PDF \<and> ext_format (name notes_file) = Some TXT
   \<and> type notes_file = MIME_PDF
   \<and> classify notes_file = PDF \<and> classify_reader notes_file = PDF
   \<and> type memo_docx \<noteq> MIME_PDF \<and> endsWith (toLowerCase (name memo_docx)) ''.docx''
   \<and> classify_reader memo_docx = DOCX
   \<and> mime_format (type scan_pdf) = Some TXT \<and> ext_format (name scan_pdf) = Some PDF
   \<and> classify scan_pdf = PDF
   \<and> type scan_pdf = MIME_TXT \<and> \<not> endsWith (toLowerCase (name scan_pdf)) ''.docx''
   \<and> classify_reader scan_pdf = TXT"
proof -
  have m: "mime_format (type notes_file) = Some PDF \<and> ext_format (name notes_file) = Some TXT"
    by code_simp
  have t: "type notes_file = MIME_PDF" by code_simp
  have d: "type memo_docx \<noteq> MIME_PDF \<and> endsWith (toLowerCase (name memo_docx)) ''.docx''"
    by code_simp
  have s: "mime_format (type scan_pdf) = Some TXT \<and> ext_format (name scan_pdf) = Some PDF"
    by code_simp
  have x: "classify notes_file = PDF \<and> classify_reader notes_file = PDF"
    using classify_conflict [of notes_file] t by blast
  have y: "classify_reader memo_docx = DOCX"
    using classify_conflict [of memo_docx] d by blast
  have "classify scan_pdf = (if rank TXT \<le> rank PDF then TXT else PDF)"
    using classify_conflict [of scan_pdf TXT PDF] s by blast
  then have z: "classify scan_pdf = PDF" by simp
  have u: "type scan_pdf = MIME_TXT \<and> \<not> endsWith (toLowerCase (name scan_pdf)) ''.docx''"
    by code_simp
  have v: "classify_reader scan_pdf = TXT"
    using classify_conflict [of scan_pdf] u by blast
  show ?thesis using m t d s x y z u v by blast
qed

text \<open>
  Claim C1 as it is written fails in both versions. \<^verbatim>\<open>memo.docx\<close> with MIME type
  \<^verbatim>\<open>text/plain\<close> has a MIME type that stands for TXT and an extension that stands for
  DOCX; both versions take the DOCX branch and return what mammoth extracts. In the version
  with the worker bootstrap, \<^verbatim>\<open>scan.pdf\<close> with MIME type \<^verbatim>\<open>text/plain\<close> takes the PDF
  branch and the text of the pages is returned.
\<close>

theorem classify_conflict_counterexample:
  "mime_format (type memo_docx) = Some TXT \<and> ext_format (name memo_docx) = Some DOCX
   \<and> classify memo_docx = DOCX \<and> classify_reader memo_docx = DOCX
   \<and> fst (extractTextFromFile reader_libs memo_docx) = Inr ''from mammoth''
   \<and> extractTextFromFile_reader reader_libs memo_docx = Inr (Some ''from mammoth'')
   \<and> mime_format (type scan_pdf) = Some TXT \<and> ext_format (name scan_pdf) = Some PDF
   \<and> classify scan_pdf = PDF
   \<and> fst (extractTextFromFile reader_libs scan_pdf) = Inr (''Hello world'' @ [LF] @ ''bye'')"
  by code_simp

text \<open>
  The extension fallback of the version with the worker bootstrap: a file whose MIME type is
  none of the three recognised ones is classified by the extension of its lower-cased name,
  in any letter case, and extraction runs the branch of that classification.
\<close>

lemma classify_extension_fallback:
  "mime_format (type f) = None \<Longrightarrow>
     classify f = (case ext_format (name f) of Some b \<Rightarrow> b | None \<Rightarrow> Unknown)
     \<and> (\<forall>b e. name f = b @ e \<and> toLowerCase e = ''.pdf'' \<longrightarrow> classify f = PDF)
     \<and> (\<forall>b e. name f = b @ e \<and> toLowerCase e = ''.docx'' \<longrightarrow> classify f = DOCX)
     \<and> (\<forall>b e. name f = b @ e \<and> toLowerCase e = ''.txt'' \<longrightarrow> classify f = TXT)"
  by (auto simp: mime_format_def ext_format_def classify_def isPDF_def isDOCX_def isTXT_def
        toLowerCase_append endsWith_def split: if_splits)

lemma extension_fallback_branch:
  assumes "mime_format (type f) = None"
  shows "extract_body env f =
     branch env f (case ext_format (name f) of Some b \<Rightarrow> b | None \<Rightarrow> Unknown)"
  using classify_extension_fallback [OF assms] extract_body_branch [of env f] by simp

lemma report_file_fallback:
  "mime_format (type report_file) = None \<and> classify report_file = PDF"
proof -
  have m: "mime_format (type report_file) = None" by code_simp
  have n: "name report_file = ''report'' @ ''.PDF'' \<and> toLowerCase ''.PDF'' = ''.pdf''" by code_simp
  show ?thesis using m n classify_extension_fallback [OF m] by blast
qed

text \<open>
  Claim C9. A file whose declared MIME type is empty or generic is to be classified by the
  extension of its name, in any letter case, so that \<^verbatim>\<open>report.PDF\<close> with an empty MIME
  type is a PDF. The version that reads through a \<^verbatim>\<open>FileReader\<close> does not do this for
  PDF: it tests the MIME type alone, so \<^verbatim>\<open>report.PDF\<close> with an empty MIME type falls to
  its last branch and the bytes of the PDF are decoded as text. The version with the worker
  bootstrap takes the PDF branch on the same file and returns the text of the pages.
\<close>

theorem reader_ignores_pdf_extension:
  "mime_format (type upper_report) = None
   \<and> classify_reader upper_report = TXT
   \<and> extractTextFromFile_reader reader_libs upper_report = Inr (Some ''%PDF'')
   \<and> classify upper_report = PDF
   \<and> fst (extractTextFromFile reader_libs upper_report) = Inr (''Hello world'' @ [LF] @ ''bye'')"
  by code_simp

section \<open>PDF extraction\<close>

lemma read_pages_readable:
  "(\<forall>j. i \<le> j \<and> j \<le> numPages pdf \<longrightarrow> readable pdf j) \<Longrightarrow>
     read_pages pdf i acc = Inr (acc @ concat (map (page_line pdf) [i..<Suc (numPages pdf)]))"
proof (induction pdf i acc rule: read_pages.induct)
  case (1 pdf i acc)
  show ?case
  proof (cases "i \<le> numPages pdf")
    case False
    then show ?thesis by (subst read_pages.simps) simp
  next
    case True
    with "1.prems" have r: "readable pdf i" by simp
    then obtain page items where p: "getPage pdf i = Inr page" "getTextContent page = Inr items"
      by (auto simp: readable_def split: sum.splits)
    have rest: "read_pages pdf (i + 1) ((acc @ js_join '' '' items) @ [LF]) =
        Inr (((acc @ js_join '' '' items) @ [LF]) @ concat (map (page_line pdf) [i + 1..<Suc (numPages pdf)]))"
      using "1.IH" [OF True p] "1.prems" by simp
    have line: "page_line pdf i = js_join '' '' items @ [LF]"
      using p by (simp add: page_line_def page_items_def)
    have "[i..<Suc (numPages pdf)] = i # [i + 1..<Suc (numPages pdf)]"
      using True by (simp add: upt_conv_Cons)
    then show ?thesis
      using True p rest line by (subst read_pages.simps) simp
  qed
qed

lemma trim_Nil: "trim [] = []"
  by (simp add: trim_def)

lemma extract_pdf_opened:
  assumes "isPDF f" "getArrayBuffer f = Inr data" "import_pdfjs env = None"
    and "open_pdf env data = (Inr pdf, log)"
  shows "extractTextFromFile env f =
     (case read_pages pdf 1 [] of
        Inl e \<Rightarrow> (Inl e, log @ [ConsoleError ''[v0] extractTextFromFile error:'' e])
      | Inr t \<Rightarrow> (Inr (trim t), log))"
  using assms by (simp add: extractTextFromFile_def extract_body_def split: sum.splits)

lemma extract_pdf_open_failed:
  assumes "isPDF f" "getArrayBuffer f = Inr data" "import_pdfjs env = None"
    and "open_pdf env data = (Inl e, log)"
  shows "extractTextFromFile env f = (Inl e, log @ [ConsoleError ''[v0] extractTextFromFile error:'' e])"
  using assms by (simp add: extractTextFromFile_def extract_body_def)

lemma extract_pdf_readable:
  assumes "isPDF f" and "getArrayBuffer f = Inr data" and "import_pdfjs env = None"
    and "fst (open_pdf env data) = Inr pdf"
    and "\<forall>i\<in>{1..numPages pdf}. readable pdf i"
  shows "fst (extractTextFromFile env f) = Inr (trim (pages_text pdf))"
proof -
  obtain log where o: "open_pdf env data = (Inr pdf, log)"
    using assms(4) by (cases "open_pdf env data") simp
  have "\<forall>j. 1 \<le> j \<and> j \<le> numPages pdf \<longrightarrow> readable pdf j"
    using assms(5) by simp
  then have "read_pages pdf 1 [] = Inr (pages_text pdf)"
    using read_pages_readable [of 1 pdf "[]"] by (simp add: pages_text_def)
  then show ?thesis
    using extract_pdf_opened [OF assms(1-3) o] by simp
qed

lemma hello_doc_text: "trim (pages_text hello_doc) = ''Hello world'' @ [LF] @ ''bye''"
  by code_simp

lemma hello_doc_pages: "numPages hello_doc = 2 \<and> readable hello_doc 1 \<and> readable hello_doc 2"
  by (simp add: readable_def hello_doc_def)

lemma hello_doc_readable: "\<forall>i\<in>{1..numPages hello_doc}. readable hello_doc i"
  by (simp add: readable_def hello_doc_def)

text \<open>
  The text of a PDF in the version with the worker bootstrap. For a file taken as a PDF whose
  bytes are read, whose library is imported, whose document is opened and whose pages can all
  be read, extraction returns the trimmed concatenation, over the pages 1 to the page count in
  order, of the fragments of the page joined with one space and followed by a newline. A
  document with no page gives the empty string.
\<close>

lemma pdf_extraction_text:
  assumes "isPDF f" and "getArrayBuffer f = Inr data" and "import_pdfjs env = None"
    and "fst (open_pdf env data) = Inr pdf"
    and "\<forall>i\<in>{1..numPages pdf}. readable pdf i"
  shows "fst (extractTextFromFile env f) = Inr (trim (pages_text pdf))
     \<and> (numPages pdf = 0 \<longrightarrow> fst (extractTextFromFile env f) = Inr [])"
proof -
  have e: "fst (extractTextFromFile env f) = Inr (trim (pages_text pdf))"
    using assms by (rule extract_pdf_readable)
  moreover have "numPages pdf = 0 \<Longrightarrow> pages_text pdf = []"
    by (simp add: pages_text_def)
  ultimately show ?thesis by (simp add: trim_Nil)
qed

lemma pdf_extraction_text_example:
  "isPDF pdf_file \<and> getArrayBuffer pdf_file = Inr [37, 80] \<and> import_pdfjs plain_libs = None
     \<and> fst (open_pdf plain_libs [37, 80]) = Inr hello_doc
     \<and> numPages hello_doc = 2 \<and> readable hello_doc 1 \<and> readable hello_doc 2
     \<and> fst (extractTextFromFile plain_libs pdf_file) = Inr (''Hello world'' @ [LF] @ ''bye'')"
proof -
  have a: "isPDF pdf_file" by code_simp
  have b: "getArrayBuffer pdf_file = Inr [37, 80]" by code_simp
  have c: "import_pdfjs plain_libs = None" by code_simp
  have d: "fst (open_pdf plain_libs [37, 80]) = Inr hello_doc"
    by (simp add: open_pdf_def plain_libs_def)
  note e = hello_doc_readable
  have x: "fst (extractTextFromFile plain_libs pdf_file) = Inr (''Hello world'' @ [LF] @ ''bye'')"
    using pdf_extraction_text [OF a b c d e] by (simp only: hello_doc_text)
  show ?thesis using a b c d hello_doc_pages x by blast
qed

text \<open>
  The text of a PDF in the version that reads through a \<^verbatim>\<open>FileReader\<close>: the fragments of
  each page joined with one space, the pages put together with nothing between them, and
  the result returned as it is.
\<close>

lemma read_pages_reader_readable:
  "(\<forall>j. i \<le> j \<and> j \<le> numPages pdf \<longrightarrow> readable pdf j) \<Longrightarrow>
     read_pages_reader pdf i acc =
       Inr (acc @ concat (map (\<lambda>j. js_join '' '' (page_items pdf j)) [i..<Suc (numPages pdf)]))"
proof (induction pdf i acc rule: read_pages_reader.induct)
  case (1 pdf i acc)
  show ?case
  proof (cases "i \<le> numPages pdf")
    case False
    then show ?thesis by (subst read_pages_reader.simps) simp
  next
    case True
    with "1.prems" have r: "readable pdf i" by simp
    then obtain page items where p: "getPage pdf i = Inr page" "getTextContent page = Inr items"
      by (auto simp: readable_def split: sum.splits)
    have rest: "read_pages_reader pdf (i + 1) (acc @ js_join '' '' items) =
        Inr ((acc @ js_join '' '' items) @
             concat (map (\<lambda>j. js_join '' '' (page_items pdf j)) [i + 1..<Suc (numPages pdf)]))"
      using "1.IH" [OF True p] "1.prems" by simp
    have line: "page_items pdf i = items"
      using p by (simp add: page_items_def)
    have "[i..<Suc (numPages pdf)] = i # [i + 1..<Suc (numPages pdf)]"
      using True by (simp add: upt_conv_Cons)
    then show ?thesis
      using True p rest line by (subst read_pages_reader.simps) simp
  qed
qed

lemma reader_pdf_text:
  assumes "type f = MIME_PDF" and "fileReader f = Inr data"
    and "getDocument env data False = Inr pdf"
    and "\<forall>i\<in>{1..numPages pdf}. readable pdf i"
  shows "extractTextFromFile_reader env f = Inr (Some (pages_text_reader pdf))"
proof -
  have "\<forall>j. 1 \<le> j \<and> j \<le> numPages pdf \<longrightarrow> readable pdf j"
    using assms(4) by simp
  then have "read_pages_reader pdf 1 [] = Inr (pages_text_reader pdf)"
    using read_pages_reader_readable [of 1 pdf "[]"] by (simp add: pages_text_reader_def)
  then show ?thesis
    using assms(1-3) by (simp add: extractTextFromFile_reader_def)
qed

text \<open>
  Claim C3. For every PDF, extraction is to return the pages in order, each as its
  fragments joined with one space and followed by a newline, the whole trimmed. The version
  that reads through a \<^verbatim>\<open>FileReader\<close> does not: on a PDF of two pages with the fragments
  \<^verbatim>\<open>Hello\<close>, \<^verbatim>\<open>world\<close> and \<^verbatim>\<open>bye\<close>, a blank, it returns the pages run together and
  untrimmed, where the claim asks for the two lines that the version with the worker
  bootstrap returns on the same file.
\<close>

theorem reader_pdf_text_unseparated:
  "type paper_pdf = MIME_PDF
   \<and> extractTextFromFile_reader reader_libs paper_pdf = Inr (Some ''Hello worldbye  '')
   \<and> trim (pages_text report_doc) = ''Hello world'' @ [LF] @ ''bye''
   \<and> fst (extractTextFromFile reader_libs paper_pdf) = Inr (''Hello world'' @ [LF] @ ''bye'')"
  by code_simp

lemma open_calls_append: "open_calls (xs @ ys) = open_calls xs @ open_calls ys"
  by (induction xs rule: open_calls.induct) simp_all

lemma open_pdf_failed:
  "getDocument env data False = Inl err \<Longrightarrow>
     open_pdf env data =
       (if js_includes (err_msg err) WORKER_MISMATCH
        then (getDocument env data True, [GetDocument False, GetDocument True])
        else (Inl err, [GetDocument False]))"
  by (simp add: open_pdf_def)

text \<open>
  Claim C4. Let the first open of a PDF reject with \<open>err\<close>, and let \<open>err_msg err\<close> be the
  message the code reads from it. If the message includes the mismatch text, the document is
  opened exactly once more, with the worker disabled: a rejection of that second open is
  the result; a document it yields is the one extraction reads, and extraction succeeds with
  its text when its pages can be read. If the message does not include the text, there is
  no second open and \<open>err\<close> itself is the result.
\<close>

theorem pdf_open_retry:
  assumes "isPDF f" and "getArrayBuffer f = Inr data" and "import_pdfjs env = None"
    and "getDocument env data False = Inl err"
  shows "(js_includes (err_msg err) WORKER_MISMATCH \<longrightarrow>
            open_calls (snd (extractTextFromFile env f)) = [False, True]
          \<and> (\<forall>e. getDocument env data True = Inl e \<longrightarrow> fst (extractTextFromFile env f) = Inl e)
          \<and> (\<forall>pdf. getDocument env data True = Inr pdf \<longrightarrow>
                fst (extractTextFromFile env f) =
                  (case read_pages pdf 1 [] of Inl e \<Rightarrow> Inl e | Inr t \<Rightarrow> Inr (trim t))
              \<and> ((\<forall>i\<in>{1..numPages pdf}. readable pdf i) \<longrightarrow>
                    fst (extractTextFromFile env f) = Inr (trim (pages_text pdf)))))
     \<and> (\<not> js_includes (err_msg err) WORKER_MISMATCH \<longrightarrow>
            open_calls (snd (extractTextFromFile env f)) = [False]
          \<and> fst (extractTextFromFile env f) = Inl err)"
proof (cases "js_includes (err_msg err) WORKER_MISMATCH")
  case False
  then have "open_pdf env data = (Inl err, [GetDocument False])"
    using open_pdf_failed [OF assms(4)] by simp
  then show ?thesis
    using False extract_pdf_open_failed [OF assms(1-3)] by (simp add: open_calls_append)
next
  case True
  then have o: "open_pdf env data = (getDocument env data True, [GetDocument False, GetDocument True])"
    using open_pdf_failed [OF assms(4)] by simp
  have calls: "open_calls (snd (extractTextFromFile env f)) = [False, True]"
  proof (cases "getDocument env data True")
    case (Inl e)
    then show ?thesis
      using o extract_pdf_open_failed [OF assms(1-3)] by (simp add: open_calls_append)
  next
    case (Inr pdf)
    then show ?thesis
      using o extract_pdf_opened [OF assms(1-3)]
      by (simp add: open_calls_append split: sum.splits)
  qed
  have failed: "fst (extractTextFromFile env f) = Inl e" if "getDocument env data True = Inl e" for e
    using that o extract_pdf_open_failed [OF assms(1-3)] by simp
  have opened: "fst (extractTextFromFile env f) =
      (case read_pages pdf 1 [] of Inl e \<Rightarrow> Inl e | Inr t \<Rightarrow> Inr (trim t))"
    if "getDocument env data True = Inr pdf" for pdf
    using that o extract_pdf_opened [OF assms(1-3)] by (simp split: sum.splits)
  have full: "fst (extractTextFromFile env f) = Inr (trim (pages_text pdf))"
    if "getDocument env data True = Inr pdf" and "\<forall>i\<in>{1..numPages pdf}. readable pdf i" for pdf
  proof -
    have "fst (open_pdf env data) = Inr pdf" using that(1) o by simp
    then show ?thesis using extract_pdf_readable [OF assms(1-3) _ that(2)] by simp
  qed
  show ?thesis using True calls failed opened full by blast
qed

theorem pdf_open_retry_witness:
  "isPDF pdf_file \<and> getArrayBuffer pdf_file = Inr [37, 80] \<and> import_pdfjs mismatch_libs = None
     \<and> getDocument mismatch_libs [37, 80] False = Inl mismatch_error
     \<and> js_includes (err_msg mismatch_error) WORKER_MISMATCH
     \<and> getDocument mismatch_libs [37, 80] True = Inr hello_doc
     \<and> numPages hello_doc = 2 \<and> readable hello_doc 1 \<and> readable hello_doc 2
     \<and> open_calls (snd (extractTextFromFile mismatch_libs pdf_file)) = [False, True]
     \<and> fst (extractTextFromFile mismatch_libs pdf_file) = Inr (''Hello world'' @ [LF] @ ''bye'')
     \<and> getDocument broken_libs [37, 80] False = Inl other_error
     \<and> \<not> js_includes (err_msg other_error) WORKER_MISMATCH
     \<and> open_calls (snd (extractTextFromFile broken_libs pdf_file)) = [False]
     \<and> fst (extractTextFromFile broken_libs pdf_file) = Inl other_error"
proof -
  have a: "isPDF pdf_file" by code_simp
  have b: "getArrayBuffer pdf_file = Inr [37, 80]" by code_simp
  have c: "import_pdfjs mismatch_libs = None" by code_simp
  have d: "getDocument mismatch_libs [37, 80] False = Inl mismatch_error"
    by (simp add: mismatch_libs_def)
  have m: "js_includes (err_msg mismatch_error) WORKER_MISMATCH" by code_simp
  have r: "getDocument mismatch_libs [37, 80] True = Inr hello_doc"
    by (simp add: mismatch_libs_def)
  note e = hello_doc_readable
  have c': "import_pdfjs broken_libs = None" by code_simp
  have d': "getDocument broken_libs [37, 80] False = Inl other_error"
    by (simp add: broken_libs_def)
  have m': "\<not> js_includes (err_msg other_error) WORKER_MISMATCH" by code_simp
  note retry = pdf_open_retry [OF a b c d]
  note plain = pdf_open_retry [OF a b c' d']
  have x1: "open_calls (snd (extractTextFromFile mismatch_libs pdf_file)) = [False, True]"
    using retry m by blast
  have "fst (extractTextFromFile mismatch_libs pdf_file) = Inr (trim (pages_text hello_doc))"
    using retry m r e by blast
  then have x2: "fst (extractTextFromFile mismatch_libs pdf_file) = Inr (''Hello world'' @ [LF] @ ''bye'')"
    by (simp only: hello_doc_text)
  have y1: "open_calls (snd (extractTextFromFile broken_libs pdf_file)) = [False]"
    using plain m' by blast
  have y2: "fst (extractTextFromFile broken_libs pdf_file) = Inl other_error"
    using plain m' by blast
  show ?thesis
    using a b c d m r hello_doc_pages x1 x2 d' m' y1 y2 by blast
qed

section \<open>Processing the documents\<close>

lemma promise_all_rejects: "\<exists>r\<in>set rs. isl r \<Longrightarrow> \<exists>e. promise_all rs = Inl e"
  by (induction rs rule: promise_all.induct) (auto split: sum.splits)

lemma promise_all_fulfils: "\<forall>r\<in>set rs. \<not> isl r \<Longrightarrow> promise_all rs = Inr (map projr rs)"
  by (induction rs rule: promise_all.induct) (auto split: sum.splits)

lemma process_failed:
  assumes "hasFiles s"
    and "promise_all (map (\<lambda>f. fst (extractTextFromFile env f)) (files s)) = Inl e"
  shows "fst (handleProcessDocuments env uuid s) = s\<lparr>isSending := False\<rparr>"
  using assms by (simp add: handleProcessDocuments_def Let_def comp_def)

lemma process_succeeded:
  assumes "hasFiles s"
    and "promise_all (map (\<lambda>f. fst (extractTextFromFile env f)) (files s)) = Inr texts"
  shows "fst (handleProcessDocuments env uuid s) =
     s\<lparr>knowledgeBase := assemble texts, isReady := True,
       messages := [\<lparr>id' = uuid, role = Assistant, content = WELCOME\<rparr>], isSending := False\<rparr>"
  using assms by (simp add: handleProcessDocuments_def Let_def comp_def)

lemma process_all_fulfilled:
  assumes "files s \<noteq> []" and "\<forall>f\<in>set (files s). \<not> isl (fst (extractTextFromFile env f))"
  shows "fst (handleProcessDocuments env uuid s) =
     s\<lparr>knowledgeBase := assemble (map (\<lambda>f. projr (fst (extractTextFromFile env f))) (files s)),
       isReady := True,
       messages := [\<lparr>id' = uuid, role = Assistant, content = WELCOME\<rparr>], isSending := False\<rparr>"
proof -
  have h: "hasFiles s" using assms(1) by (simp add: hasFiles_def)
  have "\<forall>r\<in>set (map (\<lambda>f. fst (extractTextFromFile env f)) (files s)). \<not> isl r"
    using assms(2) by auto
  then have "promise_all (map (\<lambda>f. fst (extractTextFromFile env f)) (files s)) =
      Inr (map (\<lambda>f. projr (fst (extractTextFromFile env f))) (files s))"
    using promise_all_fulfils [of "map (\<lambda>f. fst (extractTextFromFile env f)) (files s)"]
    by (simp add: comp_def)
  then show ?thesis using process_succeeded [OF h] by simp
qed

lemma bad_docx_rejects: "isl (fst (extractTextFromFile quiet_libs bad_docx))"
  by code_simp

lemma txt_file_ok: "fst (extractTextFromFile quiet_libs txt_file) = Inr ''alpha''"
  by code_simp

text \<open>
  Claim C2. Processing is all or nothing. If the extraction of some selected file rejects,
  the handler leaves the state as it was but for \<^verbatim>\<open>isSending\<close>, which ends false: the
  knowledge base, the readiness flag and the transcript are unchanged. If the selection is
  not empty and every extraction fulfils, the knowledge base is the assembled texts of the
  files in their order, the session is ready and the transcript is the welcome message.
\<close>

theorem process_all_or_nothing:
  "((\<exists>f\<in>set (files s). isl (fst (extractTextFromFile env f))) \<longrightarrow>
        fst (handleProcessDocuments env uuid s) = s\<lparr>isSending := False\<rparr>
      \<and> knowledgeBase (fst (handleProcessDocuments env uuid s)) = knowledgeBase s
      \<and> isReady (fst (handleProcessDocuments env uuid s)) = isReady s
      \<and> messages (fst (handleProcessDocuments env uuid s)) = messages s)
   \<and> (files s \<noteq> [] \<and> (\<forall>f\<in>set (files s). \<not> isl (fst (extractTextFromFile env f))) \<longrightarrow>
        knowledgeBase (fst (handleProcessDocuments env uuid s)) =
          assemble (map (\<lambda>f. projr (fst (extractTextFromFile env f))) (files s))
      \<and> isReady (fst (handleProcessDocuments env uuid s))
      \<and> messages (fst (handleProcessDocuments env uuid s)) = [welcome_msg uuid])"
proof (intro conjI impI)
  assume bad: "\<exists>f\<in>set (files s). isl (fst (extractTextFromFile env f))"
  then have h: "hasFiles s" by (auto simp: hasFiles_def)
  from bad have "\<exists>r\<in>set (map (\<lambda>f. fst (extractTextFromFile env f)) (files s)). isl r"
    by auto
  then obtain e where "promise_all (map (\<lambda>f. fst (extractTextFromFile env f)) (files s)) = Inl e"
    using promise_all_rejects by blast
  then have r: "fst (handleProcessDocuments env uuid s) = s\<lparr>isSending := False\<rparr>"
    using process_failed [OF h] by simp
  show "fst (handleProcessDocuments env uuid s) = s\<lparr>isSending := False\<rparr>" by (rule r)
  show "knowledgeBase (fst (handleProcessDocuments env uuid s)) = knowledgeBase s" by (simp add: r)
  show "isReady (fst (handleProcessDocuments env uuid s)) = isReady s" by (simp add: r)
  show "messages (fst (handleProcessDocuments env uuid s)) = messages s" by (simp add: r)
next
  assume ok: "files s \<noteq> [] \<and> (\<forall>f\<in>set (files s). \<not> isl (fst (extractTextFromFile env f)))"
  then have r: "fst (handleProcessDocuments env uuid s) =
     s\<lparr>knowledgeBase := assemble (map (\<lambda>f. projr (fst (extractTextFromFile env f))) (files s)),
       isReady := True,
       messages := [\<lparr>id' = uuid, role = Assistant, content = WELCOME\<rparr>], isSending := False\<rparr>"
    using process_all_fulfilled by blast
  show "knowledgeBase (fst (handleProcessDocuments env uuid s)) =
      assemble (map (\<lambda>f. projr (fst (extractTextFromFile env f))) (files s))" by (simp add: r)
  show "isReady (fst (handleProcessDocuments env uuid s))" by (simp add: r)
  show "messages (fst (handleProcessDocuments env uuid s)) = [welcome_msg uuid]"
    by (simp add: r welcome_msg_def)
qed

theorem process_all_or_nothing_witness:
  "(\<exists>f\<in>set (files ready_state). isl (fst (extractTextFromFile quiet_libs f)))
   \<and> knowledgeBase (fst (handleProcessDocuments quiet_libs ''w1'' ready_state)) = ''old''
   \<and> isReady (fst (handleProcessDocuments quiet_libs ''w1'' ready_state))
   \<and> messages (fst (handleProcessDocuments quiet_libs ''w1'' ready_state)) = [old_msg]
   \<and> files good_state = [txt_file, txt_file]
   \<and> \<not> isl (fst (extractTextFromFile quiet_libs txt_file))
   \<and> knowledgeBase (fst (handleProcessDocuments quiet_libs ''w1'' good_state)) = ''alpha'' @ SEP @ ''alpha''
   \<and> messages (fst (handleProcessDocuments quiet_libs ''w1'' good_state)) = [welcome_msg ''w1'']"
proof -
  have a: "\<exists>f\<in>set (files ready_state). isl (fst (extractTextFromFile quiet_libs f))"
    using bad_docx_rejects by (simp add: ready_state_def)
  have b: "files good_state \<noteq> [] \<and> (\<forall>f\<in>set (files good_state). \<not> isl (fst (extractTextFromFile quiet_libs f)))"
    using txt_file_ok by (simp add: good_state_def)
  have k: "assemble (map (\<lambda>f. projr (fst (extractTextFromFile quiet_libs f))) (files good_state))
      = ''alpha'' @ SEP @ ''alpha''"
    using txt_file_ok by (simp add: good_state_def assemble_def)
  note bad = process_all_or_nothing [of ready_state quiet_libs "''w1''"]
  note good = process_all_or_nothing [of good_state quiet_libs "''w1''"]
  have "knowledgeBase (fst (handleProcessDocuments quiet_libs ''w1'' ready_state)) = knowledgeBase ready_state"
    using bad a by blast
  then have x1: "knowledgeBase (fst (handleProcessDocuments quiet_libs ''w1'' ready_state)) = ''old''"
    by (simp add: ready_state_def)
  have "isReady (fst (handleProcessDocuments quiet_libs ''w1'' ready_state)) = isReady ready_state"
    using bad a by blast
  then have x2: "isReady (fst (handleProcessDocuments quiet_libs ''w1'' ready_state))"
    by (simp add: ready_state_def)
  have "messages (fst (handleProcessDocuments quiet_libs ''w1'' ready_state)) = messages ready_state"
    using bad a by blast
  then have x3: "messages (fst (handleProcessDocuments quiet_libs ''w1'' ready_state)) = [old_msg]"
    by (simp add: ready_state_def)
  have "knowledgeBase (fst (handleProcessDocuments quiet_libs ''w1'' good_state)) =
      assemble (map (\<lambda>f. projr (fst (extractTextFromFile quiet_libs f))) (files good_state))"
    using good b by blast
  then have y1: "knowledgeBase (fst (handleProcessDocuments quiet_libs ''w1'' good_state)) = ''alpha'' @ SEP @ ''alpha''"
    by (simp only: k)
  have y2: "messages (fst (handleProcessDocuments quiet_libs ''w1'' good_state)) = [welcome_msg ''w1'']"
    using good b by blast
  have f: "files good_state = [txt_file, txt_file]" by (simp add: good_state_def)
  have g: "\<not> isl (fst (extractTextFromFile quiet_libs txt_file))" using txt_file_ok by simp
  show ?thesis using a f g x1 x2 x3 y1 y2 by blast
qed

text \<open>
  Claim C10. After a run in which every extraction fulfils, the transcript is exactly one
  message, the assistant's welcome: whatever it held before is gone, so its length is 1.
\<close>

theorem process_replaces_transcript:
  "files s \<noteq> [] \<Longrightarrow> \<forall>f\<in>set (files s). \<not> isl (fst (extractTextFromFile env f)) \<Longrightarrow>
     messages (fst (handleProcessDocuments env uuid s)) =
       [\<lparr>id' = uuid, role = Assistant, content = WELCOME\<rparr>]
     \<and> length (messages (fst (handleProcessDocuments env uuid s))) = 1"
  using process_all_fulfilled [of s env uuid] by simp

theorem process_replaces_transcript_witness:
  "files good_state = [txt_file, txt_file]
   \<and> \<not> isl (fst (extractTextFromFile quiet_libs txt_file))
   \<and> length (messages good_state) = 2
   \<and> messages (fst (handleProcessDocuments quiet_libs ''w1'' good_state)) =
       [\<lparr>id' = ''w1'', role = Assistant, content = WELCOME\<rparr>]
   \<and> length (messages (fst (handleProcessDocuments quiet_libs ''w1'' good_state))) = 1"
proof -
  have a: "files good_state \<noteq> []" by (simp add: good_state_def)
  have b: "\<forall>f\<in>set (files good_state). \<not> isl (fst (extractTextFromFile quiet_libs f))"
    using txt_file_ok by (simp add: good_state_def)
  have c: "length (messages good_state) = 2" by (simp add: good_state_def)
  have f: "files good_state = [txt_file, txt_file]" by (simp add: good_state_def)
  have g: "\<not> isl (fst (extractTextFromFile quiet_libs txt_file))" using txt_file_ok by simp
  show ?thesis using f g c process_replaces_transcript [OF a b, of "''w1''"] by blast
qed

section \<open>Sending a message\<close>

text \<open>
  Claim C6. When the input is empty or only white space, or a reply is in flight, or the
  session is not ready, the handler returns with the state as it was (so nothing is appended
  to the transcript) and its effects hold no network request.
\<close>

theorem send_guard:
  "trim (input s) = [] \<or> isSending s \<or> \<not> isReady s \<Longrightarrow>
     handleSend env s = Inr (s, [PreventDefault])
     \<and> messages (fst (projr (handleSend env s))) = messages s
     \<and> fetches (snd (projr (handleSend env s))) = []"
  by (auto simp: handleSend_def fetches_def)

theorem send_guard_witness:
  "trim (input blank_state) = [] \<and> isReady blank_state
   \<and> handleSend offline blank_state = Inr (blank_state, [PreventDefault])
   \<and> \<not> isReady unready_state \<and> trim (input unready_state) \<noteq> []
   \<and> handleSend offline unready_state = Inr (unready_state, [PreventDefault])
   \<and> fetches (snd (projr (handleSend offline unready_state))) = []"
proof -
  have a: "trim (input blank_state) = []" by code_simp
  have a': "isReady blank_state" by (simp add: blank_state_def)
  have b: "\<not> isReady unready_state" by (simp add: unready_state_def)
  have b': "trim (input unready_state) \<noteq> []" by code_simp
  have x: "handleSend offline blank_state = Inr (blank_state, [PreventDefault])"
    using send_guard [of blank_state offline] a by blast
  have y: "handleSend offline unready_state = Inr (unready_state, [PreventDefault])"
    "fetches (snd (projr (handleSend offline unready_state))) = []"
    using send_guard [of unready_state offline] b by blast+
  show ?thesis using a a' b b' x y by blast
qed

lemma send_try_fails:
  "fetch_result env = Inl e \<or> (\<exists>res. fetch_result env = Inr res \<and> \<not> ok res) \<Longrightarrow>
     \<exists>err. send_try env = Inl err"
  by (auto simp: send_try_def split: sum.splits)

lemma send_failed:
  assumes "trim (input s) \<noteq> []" "\<not> isSending s" "isReady s" "send_try env = Inl err"
  shows "handleSend env s =
     Inr (s\<lparr>messages := messages s @ [user_msg env s, apology_msg env], input := [], isSending := False\<rparr>,
          [PreventDefault,
           Fetch ''/api/gemini'' (knowledgeBase s)
             (map (\<lambda>m. (role m, content m)) (messages s @ [user_msg env s])),
           ConsoleError ''[v0] Chat error:'' (message_or_err err)])"
  using assms by (simp add: handleSend_def Let_def user_msg_def apology_msg_def)

text \<open>
  Claim C7. When a submission passes the guard and its request fails (the network call
  rejects, or the response is not ok), the handler returns (no exception leaves it), the
  transcript is the old one followed by the user's message and one assistant message with
  the fixed apology, so it holds exactly one assistant message more, and \<^verbatim>\<open>isSending\<close> is
  false.
\<close>

theorem send_failure_apology:
  assumes "trim (input s) \<noteq> []" and "\<not> isSending s" and "isReady s"
    and "fetch_result env = Inl e \<or> (\<exists>res. fetch_result env = Inr res \<and> \<not> ok res)"
  shows "\<exists>s' log. handleSend env s = Inr (s', log)
     \<and> messages s' = messages s @ [user_msg env s, apology_msg env]
     \<and> assistant_count (messages s') = assistant_count (messages s) + 1
     \<and> \<not> isSending s'"
proof -
  obtain err where "send_try env = Inl err"
    using send_try_fails [OF assms(4)] by blast
  then show ?thesis
    using send_failed [OF assms(1-3)]
    by (simp add: assistant_count_def user_msg_def apology_msg_def)
qed

theorem send_failure_apology_witness:
  "trim (input ready_state) \<noteq> [] \<and> \<not> isSending ready_state \<and> isReady ready_state
   \<and> fetch_result offline = Inl (JsError ''TypeError'' ''Failed to fetch'')
   \<and> (\<exists>s' log. handleSend offline ready_state = Inr (s', log)
        \<and> messages s' = [old_msg, \<lparr>id' = ''u1'', role = User, content = ''what now?''\<rparr>,
             \<lparr>id' = ''u2'', role = Assistant, content = APOLOGY\<rparr>]
        \<and> \<not> isSending s')
   \<and> (\<exists>res. fetch_result server_down = Inr res \<and> \<not> ok res)
   \<and> (\<exists>s' log. handleSend server_down ready_state = Inr (s', log)
        \<and> messages s' = [old_msg, \<lparr>id' = ''u3'', role = User, content = ''what now?''\<rparr>,
             \<lparr>id' = ''u4'', role = Assistant, content = APOLOGY\<rparr>]
        \<and> \<not> isSending s')"
proof -
  have a: "trim (input ready_state) \<noteq> []" by code_simp
  have b: "\<not> isSending ready_state" by (simp add: ready_state_def)
  have c: "isReady ready_state" by (simp add: ready_state_def)
  have d: "fetch_result offline = Inl (JsError ''TypeError'' ''Failed to fetch'')"
    by (simp add: offline_def)
  have d': "\<exists>res. fetch_result server_down = Inr res \<and> \<not> ok res"
    by (simp add: server_down_def)
  have t: "trim (input ready_state) = ''what now?''" by code_simp
  have m1: "messages ready_state @ [user_msg offline ready_state, apology_msg offline] =
      [old_msg, \<lparr>id' = ''u1'', role = User, content = ''what now?''\<rparr>,
       \<lparr>id' = ''u2'', role = Assistant, content = APOLOGY\<rparr>]"
    by (simp add: user_msg_def apology_msg_def t) (simp add: ready_state_def offline_def)
  have m2: "messages ready_state @ [user_msg server_down ready_state, apology_msg server_down] =
      [old_msg, \<lparr>id' = ''u3'', role = User, content = ''what now?''\<rparr>,
       \<lparr>id' = ''u4'', role = Assistant, content = APOLOGY\<rparr>]"
    by (simp add: user_msg_def apology_msg_def t) (simp add: ready_state_def server_down_def)
  have x: "\<exists>s' log. handleSend offline ready_state = Inr (s', log)
        \<and> messages s' = [old_msg, \<lparr>id' = ''u1'', role = User, content = ''what now?''\<rparr>,
             \<lparr>id' = ''u2'', role = Assistant, content = APOLOGY\<rparr>]
        \<and> \<not> isSending s'"
    using send_failure_apology [OF a b c, of offline] d unfolding m1 by blast
  have y: "\<exists>s' log. handleSend server_down ready_state = Inr (s', log)
        \<and> messages s' = [old_msg, \<lparr>id' = ''u3'', role = User, content = ''what now?''\<rparr>,
             \<lparr>id' = ''u4'', role = Assistant, content = APOLOGY\<rparr>]
        \<and> \<not> isSending s'"
    using send_failure_apology [OF a b c, of server_down] d' unfolding m2 by blast
  show ?thesis using a b c d d' x y by blast
qed

section \<open>The worker bootstrap under interleaving\<close>

lemma step_idle:
  assumes "initialized w" and "\<forall>c\<in>set cs. c \<noteq> Awaiting"
  shows "fst (step hw imp i (w, cs)) = w \<and> (\<forall>c\<in>set (snd (step hw imp i (w, cs))). c \<noteq> Awaiting)"
proof (cases "i < length cs")
  case False
  then show ?thesis using assms by (simp add: step_def)
next
  case True
  then have "cs ! i \<noteq> Awaiting" using assms(2) by simp
  then show ?thesis
    using True assms
    by (cases "cs ! i") (auto simp: step_def ensure_start_def dest: set_update_subset_insert [THEN subsetD])
qed

lemma run_idle:
  "initialized w \<Longrightarrow> \<forall>c\<in>set cs. c \<noteq> Awaiting \<Longrightarrow> fst (run hw imp sched (w, cs)) = w"
proof (induction sched arbitrary: cs)
  case Nil
  then show ?case by simp
next
  case (Cons i sched)
  obtain cs' where s: "step hw imp i (w, cs) = (w, cs')" and "\<forall>c\<in>set cs'. c \<noteq> Awaiting"
    using step_idle [OF Cons.prems, of hw imp i] by (cases "step hw imp i (w, cs)") auto
  then show ?case using Cons.IH [of cs'] Cons.prems(1) by simp
qed

lemma step_configured: "configured w \<Longrightarrow> configured (fst (step hw imp i (w, cs)))"
  by (auto simp: step_def configured_def ensure_start_def ensure_resume_def Let_def
      split: call.splits option.splits)

lemma run_configured: "configured w \<Longrightarrow> configured (fst (run hw imp sched (w, cs)))"
proof (induction sched arbitrary: w cs)
  case Nil
  then show ?case by simp
next
  case (Cons i sched)
  obtain w' cs' where s: "step hw imp i (w, cs) = (w', cs')" by (cases "step hw imp i (w, cs)")
  then have "configured w'" using step_configured [OF Cons.prems, of hw imp i cs] by simp
  then show ?case using Cons.IH [of w' cs'] s by simp
qed

text \<open>
  Claim C8, as amended.
  Once the flag is set and no call is suspended at the import, calls in any number and
  order leave the module state as it is: each returns at once, without import and without
  write.
  Two calls run one after the other from a state with the flag unset behave as follows.
  Without a window both return at once and nothing changes. With a window, if the import
  of the first call fulfils, the library is imported once, \<^verbatim>\<open>workerSrc\<close> is written once,
  the flag is set and the second call returns at once. If the import of the first call
  rejects, that call rejects with the flag unset and the second call imports again: when
  its import fulfils, \<^verbatim>\<open>workerSrc\<close> is written once and the flag is set, after two
  imports; when it rejects too, nothing is written. In each case \<^verbatim>\<open>workerSrc\<close> is written
  at most once.
  Under every schedule, interleaved or not, from a state in which the flag is set only with
  \<^verbatim>\<open>workerSrc\<close> written, the flag stays set only with \<^verbatim>\<open>workerSrc\<close> written.
\<close>

theorem bootstrap_sequential:
  "(initialized w \<and> Awaiting \<notin> set cs \<longrightarrow> fst (run hw imp sched (w, cs)) = w)
   \<and> (\<not> initialized w \<longrightarrow>
        run hw imp [0, 0, 1, 1] (w, [Fresh, Fresh]) =
          (if \<not> hw then (w, [Returned, Returned])
           else case imp 0 of
             None \<Rightarrow>
               (w\<lparr>import_calls := import_calls w + 1, workerSrc := Some WORKER_URL,
                  src_writes := src_writes w + 1, initialized := True\<rparr>, [Returned, Returned])
           | Some e \<Rightarrow>
               (case imp 1 of
                  None \<Rightarrow>
                    (w\<lparr>import_calls := import_calls w + 2, workerSrc := Some WORKER_URL,
                       src_writes := src_writes w + 1, initialized := True\<rparr>,
                     [Rejected e, Returned])
                | Some e' \<Rightarrow>
                    (w\<lparr>import_calls := import_calls w + 2\<rparr>, [Rejected e, Rejected e'])))
      \<and> src_writes (fst (run hw imp [0, 0, 1, 1] (w, [Fresh, Fresh]))) \<le> src_writes w + 1)
   \<and> (configured w \<longrightarrow> configured (fst (run hw imp sched (w, cs))))"
proof (intro conjI impI)
  assume "initialized w \<and> Awaiting \<notin> set cs"
  then have "initialized w" "\<forall>c\<in>set cs. c \<noteq> Awaiting" by auto
  then show "fst (run hw imp sched (w, cs)) = w" by (rule run_idle)
next
  assume n: "\<not> initialized w"
  then show r: "run hw imp [0, 0, 1, 1] (w, [Fresh, Fresh]) =
          (if \<not> hw then (w, [Returned, Returned])
           else case imp 0 of
             None \<Rightarrow>
               (w\<lparr>import_calls := import_calls w + 1, workerSrc := Some WORKER_URL,
                  src_writes := src_writes w + 1, initialized := True\<rparr>, [Returned, Returned])
           | Some e \<Rightarrow>
               (case imp 1 of
                  None \<Rightarrow>
                    (w\<lparr>import_calls := import_calls w + 2, workerSrc := Some WORKER_URL,
                       src_writes := src_writes w + 1, initialized := True\<rparr>,
                     [Rejected e, Returned])
                | Some e' \<Rightarrow>
                    (w\<lparr>import_calls := import_calls w + 2\<rparr>, [Rejected e, Rejected e'])))"
    by (simp add: step_def ensure_start_def ensure_resume_def Let_def split: option.splits)
  show "src_writes (fst (run hw imp [0, 0, 1, 1] (w, [Fresh, Fresh]))) \<le> src_writes w + 1"
    unfolding r by (simp split: option.splits)
next
  assume "configured w"
  then show "configured (fst (run hw imp sched (w, cs)))" by (rule run_configured)
qed

theorem bootstrap_sequential_witness:
  "\<not> initialized worker0
   \<and> run True imports_ok [0, 0, 1, 1] (worker0, [Fresh, Fresh]) =
       (\<lparr>initialized = True, workerSrc = Some WORKER_URL, import_calls = 1, src_writes = 1\<rparr>,
        [Returned, Returned])
   \<and> fst (run True first_import_fails [0, 0, 1, 1] (worker0, [Fresh, Fresh])) =
       \<lparr>initialized = True, workerSrc = Some WORKER_URL, import_calls = 2, src_writes = 1\<rparr>
   \<and> run False imports_ok [0, 0, 1, 1] (worker0, [Fresh, Fresh]) = (worker0, [Returned, Returned])
   \<and> initialized (fst (run True imports_ok [0, 0] (worker0, [Fresh])))
   \<and> Awaiting \<notin> set [Fresh, Fresh, Returned]
   \<and> fst (run True imports_ok [1, 0, 1, 2]
        (fst (run True imports_ok [0, 0] (worker0, [Fresh])), [Fresh, Fresh, Returned])) =
      fst (run True imports_ok [0, 0] (worker0, [Fresh]))
   \<and> configured worker0
   \<and> configured (fst (run True imports_ok [0, 1, 0, 1] (worker0, [Fresh, Fresh])))"
proof -
  have a: "\<not> initialized worker0" by (simp add: worker0_def)
  have i: "initialized (fst (run True imports_ok [0, 0] (worker0, [Fresh])))"
    by (simp add: step_def ensure_start_def ensure_resume_def imports_ok_def worker0_def Let_def)
  have n: "Awaiting \<notin> set [Fresh, Fresh, Returned]" by simp
  have c: "configured worker0" by (simp add: configured_def worker0_def)
  have x: "run True imports_ok [0, 0, 1, 1] (worker0, [Fresh, Fresh]) =
       (\<lparr>initialized = True, workerSrc = Some WORKER_URL, import_calls = 1, src_writes = 1\<rparr>,
        [Returned, Returned])"
    using bootstrap_sequential [of worker0 _ True imports_ok] a
    by (simp add: imports_ok_def worker0_def)
  have x2: "fst (run True first_import_fails [0, 0, 1, 1] (worker0, [Fresh, Fresh])) =
       \<lparr>initialized = True, workerSrc = Some WORKER_URL, import_calls = 2, src_writes = 1\<rparr>"
    using bootstrap_sequential [of worker0 _ True first_import_fails] a
    by (simp add: first_import_fails_def worker0_def)
  have x3: "run False imports_ok [0, 0, 1, 1] (worker0, [Fresh, Fresh]) = (worker0, [Returned, Returned])"
    using bootstrap_sequential [of worker0 _ False imports_ok] a by simp
  have y: "fst (run True imports_ok [1, 0, 1, 2]
        (fst (run True imports_ok [0, 0] (worker0, [Fresh])), [Fresh, Fresh, Returned])) =
      fst (run True imports_ok [0, 0] (worker0, [Fresh]))"
    using bootstrap_sequential [of "fst (run True imports_ok [0, 0] (worker0, [Fresh]))"
        "[Fresh, Fresh, Returned]" True imports_ok "[1, 0, 1, 2]"] i n by blast
  have z: "configured (fst (run True imports_ok [0, 1, 0, 1] (worker0, [Fresh, Fresh])))"
    using bootstrap_sequential [of worker0 "[Fresh, Fresh]" True imports_ok "[0, 1, 0, 1]"] c by blast
  show ?thesis using a i n c x x2 x3 y z by blast
qed

text \<open>
  Claim C8 as it is written fails for two calls that interleave at the import: both pass the
  test of the flag before either sets it, so the library is imported twice and
  \<^verbatim>\<open>workerSrc\<close> is written twice.
\<close>

theorem bootstrap_interleaved_counterexample:
  "src_writes (fst (run True imports_ok [0, 1, 0, 1] (worker0, [Fresh, Fresh]))) = 2
   \<and> import_calls (fst (run True imports_ok [0, 1, 0, 1] (worker0, [Fresh, Fresh]))) = 2"
  by (simp add: step_def ensure_start_def ensure_resume_def imports_ok_def worker0_def Let_def)

section \<open>The separators of the knowledge base\<close>

lemma occurrences_append:
  "sep \<noteq> [] \<Longrightarrow> occurrences sep (a @ b) = occ_front sep a b + occurrences sep b"
  by (induction a) simp_all

lemma LF_not_dash [simp]: "LF \<noteq> CHR ''-''" "CHR ''-'' \<noteq> LF"
  by (simp_all add: LF_def)

lemma SEP_not_Nil: "SEP \<noteq> []"
  by (simp add: SEP_def)

lemma no_rule_tl: "\<not> has_sub RULE (c # cs) \<Longrightarrow> \<not> has_sub RULE cs"
  by (simp add: has_sub_def)

lemma no_prefix_across:
  assumes "\<not> has_sub RULE (c # cs)"
  shows "\<not> prefix SEP (c # cs @ SEP @ r)"
proof (cases cs)
  case Nil
  then show ?thesis by (simp add: SEP_def)
next
  case c1: (Cons d1 cs1)
  show ?thesis
  proof (cases cs1)
    case Nil
    then show ?thesis using c1 by (simp add: SEP_def)
  next
    case c2: (Cons d2 cs2)
    show ?thesis
    proof (cases cs2)
      case Nil
      then show ?thesis using c1 c2 by (simp add: SEP_def)
    next
      case c3: (Cons d3 cs3)
      show ?thesis
      proof (cases cs3)
        case Nil
        then show ?thesis using c1 c2 c3 by (simp add: SEP_def)
      next
        case c4: (Cons d4 cs4)
        then show ?thesis
          using c1 c2 c3 assms by (auto simp: SEP_def has_sub_def RULE_def)
      qed
    qed
  qed
qed

lemma occ_front_text:
  "\<not> has_sub RULE t \<Longrightarrow> occ_front SEP t (SEP @ r) = 0"
proof (induction t)
  case Nil
  then show ?case by simp
next
  case (Cons c cs)
  then show ?case using no_prefix_across [OF Cons.prems, of r] no_rule_tl [OF Cons.prems] by simp
qed

lemma occ_front_SEP: "clean_start r \<Longrightarrow> occ_front SEP SEP r = 1"
  by (auto simp: SEP_def clean_start_def RULE_def prefix_def)

lemma clean_start_text:
  assumes "\<not> has_sub RULE t" and "x = [] \<or> (\<exists>y. x = LF # LF # y)"
  shows "clean_start (t @ x)"
proof (cases t)
  case Nil
  then show ?thesis using assms(2) by (auto simp: clean_start_def RULE_def)
next
  case c1: (Cons d1 t1)
  show ?thesis
  proof (cases t1)
    case Nil
    then show ?thesis using c1 assms(2) by (auto simp: clean_start_def RULE_def)
  next
    case c2: (Cons d2 t2)
    show ?thesis
    proof (cases t2)
      case Nil
      then show ?thesis using c1 c2 assms(2) by (auto simp: clean_start_def RULE_def)
    next
      case c3: (Cons d3 t3)
      show ?thesis
      proof (cases t3)
        case Nil
        then show ?thesis using c1 c2 c3 assms by (auto simp: clean_start_def RULE_def has_sub_def)
      next
        case c4: (Cons d4 t4)
        then show ?thesis using c1 c2 c3 assms(1) by (auto simp: clean_start_def RULE_def has_sub_def)
      qed
    qed
  qed
qed

lemma join_shape: "js_join SEP (t # ts) = t @ (if ts = [] then [] else SEP @ js_join SEP ts)"
  by (cases ts) simp_all

lemma clean_start_join:
  assumes "\<forall>t\<in>set ts. \<not> has_sub RULE t"
  shows "clean_start (js_join SEP ts)"
proof (cases ts)
  case Nil
  then show ?thesis by (simp add: clean_start_def RULE_def)
next
  case (Cons t ts')
  have "(if ts' = [] then [] else SEP @ js_join SEP ts') = [] \<or>
        (\<exists>y. (if ts' = [] then [] else SEP @ js_join SEP ts') = LF # LF # y)"
    by (simp add: SEP_def)
  then show ?thesis
    using clean_start_text [of t] assms Cons by (simp only: join_shape) simp
qed

lemma occurrences_text: "\<not> has_sub RULE t \<Longrightarrow> occurrences SEP t = 0"
proof (induction t)
  case Nil
  then show ?case by (simp add: SEP_def)
next
  case (Cons c cs)
  have "\<not> prefix SEP (c # cs)"
  proof
    assume "prefix SEP (c # cs)"
    then obtain v where "c # cs = SEP @ v" by (auto simp: prefix_def)
    then have "has_sub RULE (c # cs)" by (simp add: has_sub_def SEP_def RULE_def)
    with Cons.prems show False by simp
  qed
  then show ?case using Cons.IH no_rule_tl [OF Cons.prems] by simp
qed

lemma occurrences_join:
  "ts \<noteq> [] \<Longrightarrow> \<forall>t\<in>set ts. \<not> has_sub RULE t \<Longrightarrow>
     occurrences SEP (js_join SEP ts) = length ts - 1"
proof (induction ts rule: induct_list012)
  case 1
  then show ?case by simp
next
  case (2 x)
  then show ?case by (simp add: occurrences_text)
next
  case (3 x y ys)
  have c: "clean_start (js_join SEP (y # ys))"
    using "3.prems"(2) clean_start_join [of "y # ys"] by simp
  have "occurrences SEP (x @ SEP @ js_join SEP (y # ys)) =
      occ_front SEP x (SEP @ js_join SEP (y # ys)) + occurrences SEP (SEP @ js_join SEP (y # ys))"
    by (rule occurrences_append [OF SEP_not_Nil])
  also have "occurrences SEP (SEP @ js_join SEP (y # ys)) =
      occ_front SEP SEP (js_join SEP (y # ys)) + occurrences SEP (js_join SEP (y # ys))"
    by (rule occurrences_append [OF SEP_not_Nil])
  finally show ?case
    using "3.IH"(2) "3.prems"(2) c by (simp add: occ_front_text occ_front_SEP)
qed

lemma join_append:
  "xs \<noteq> [] \<Longrightarrow> ys \<noteq> [] \<Longrightarrow> js_join sep (xs @ ys) = js_join sep xs @ sep @ js_join sep ys"
proof (induction sep xs rule: js_join.induct)
  case (1 sep)
  then show ?case by simp
next
  case (2 sep x)
  then show ?case by (cases ys) simp_all
next
  case (3 sep x y zs)
  then show ?case by simp
qed

text \<open>
  Claim C5, as amended. The separator is two newlines, three hyphens and two newlines.
  Assembling the empty list gives the empty string; assembling one text gives that text;
  assembling a text followed by one or more texts gives the text, the separator, and the
  assembly of the texts that follow, so that the texts stand in input order with one
  separator between two neighbours, and the knowledge base of \<open>xs @ ys\<close> is that of \<open>xs\<close>,
  the separator, and that of \<open>ys\<close>. For \<open>N \<ge> 1\<close> texts of which none contains \<^verbatim>\<open>---\<close>,
  the separator occurs exactly \<open>N - 1\<close> times in the knowledge base.
\<close>

theorem assemble_separators:
  "assemble [] = []
   \<and> assemble [x] = x
   \<and> assemble (x # y # zs) = x @ SEP @ assemble (y # zs)
   \<and> SEP = [LF, LF] @ ''---'' @ [LF, LF]
   \<and> (ts \<noteq> [] \<and> (\<forall>t\<in>set ts. \<not> has_sub RULE t) \<longrightarrow>
        occurrences SEP (assemble ts) = length ts - 1)
   \<and> (xs \<noteq> [] \<and> ys \<noteq> [] \<longrightarrow> assemble (xs @ ys) = assemble xs @ SEP @ assemble ys)"
  using occurrences_join [of ts] join_append [of xs ys SEP] by (simp add: assemble_def SEP_def)

theorem assemble_separators_witness:
  "\<not> has_sub RULE ''one'' \<and> \<not> has_sub RULE ''two - 2'' \<and> \<not> has_sub RULE []
   \<and> occurrences SEP (assemble [''one'', ''two - 2'', []]) = 2
   \<and> assemble [''one'', ''two - 2'', []] = ''one'' @ SEP @ ''two - 2'' @ SEP
   \<and> assemble ([''one''] @ [''two - 2'', []]) = assemble [''one''] @ SEP @ assemble [''two - 2'', []]"
proof -
  have a: "[''one'', ''two - 2'', []] \<noteq> [] \<and> (\<forall>t\<in>set [''one'', ''two - 2'', []]. \<not> has_sub RULE t)"
    by (simp add: has_sub_def RULE_def)
  have b: "[''one''] \<noteq> [] \<and> [''two - 2'', []] \<noteq> []" by simp
  have "occurrences SEP (assemble [''one'', ''two - 2'', []]) = length [''one'', ''two - 2'', []] - 1"
    using assemble_separators [where ts = "[''one'', ''two - 2'', []]"] a by blast
  then have x: "occurrences SEP (assemble [''one'', ''two - 2'', []]) = 2" by simp
  have y: "assemble ([''one''] @ [''two - 2'', []]) = assemble [''one''] @ SEP @ assemble [''two - 2'', []]"
    using assemble_separators [where xs = "[''one'']" and ys = "[''two - 2'', []]"] b by blast
  have e1: "assemble [''one'', ''two - 2'', []] = ''one'' @ SEP @ assemble [''two - 2'', []]"
    using assemble_separators [where x = "''one''" and y = "''two - 2''" and zs = "[[]]"] by blast
  have e2: "assemble [''two - 2'', []] = ''two - 2'' @ SEP @ assemble [[]]"
    using assemble_separators [where x = "''two - 2''" and y = "[]" and zs = "[]"] by blast
  have e3: "assemble [[]] = []"
    using assemble_separators [where x = "[]"] by blast
  have z: "assemble [''one'', ''two - 2'', []] = ''one'' @ SEP @ ''two - 2'' @ SEP"
    unfolding e1 e2 e3 by simp
  have a': "\<not> has_sub RULE ''one'' \<and> \<not> has_sub RULE ''two - 2'' \<and> \<not> has_sub RULE []"
    using a by simp
  show ?thesis using a' x y z by blast
qed

text \<open>
  Claim C5 as it is written fails when a text holds the separator itself: the knowledge
  base of that one text (\<open>N = 1\<close>) has one occurrence of the separator, not \<open>N - 1 = 0\<close>.
\<close>

theorem assemble_separator_counterexample:
  "occurrences SEP (assemble [''intro'' @ SEP @ ''body'']) = 1
   \<and> length [''intro'' @ SEP @ ''body''] - 1 = 0"
  by (simp add: assemble_def SEP_def)

end
